theory Spec2Isabelle
  imports Complex_Main "HOL-Library.Char_ord" "HOL-Library.List_Lexorder"
begin

section \<open>Python values used by the analyser\<close>

text \<open>
  The program is \<^verbatim>\<open>analyse_pgn_files.py\<close>.  Python's unbounded integers are \<open>int\<close>,
  strings are \<open>string\<close> (one \<open>char\<close> per code point, code points below 256), a \<open>dict\<close> is
  a map.  Python's \<open>float\<close> is modelled by \<open>real\<close>: the arithmetic of the accuracy formulas
  is exact in the analysis of a game; the win-percentage formula is given a second time
  with the rounding of IEEE doubles, in a section of its own.

  Every exception the analyser can meet is a subclass of Python's \<open>Exception\<close>; the
  constructors name the classes that the source mentions or that its library calls raise.
\<close>

datatype py_exception =
  ValueError | IndexError | KeyError | TypeError | OSError | OverflowError | EngineError
  | OtherException

text \<open>\<open>str.isspace\<close> on one character (the code points below 256 for which it holds).\<close>

definition py_isspace :: "char \<Rightarrow> bool" where
  "py_isspace c \<longleftrightarrow> (of_char c :: nat) \<in> {9, 10, 11, 12, 13, 28, 29, 30, 31, 32, 133, 160}"

text \<open>\<open>s.strip()\<close>.\<close>

definition py_strip :: "string \<Rightarrow> string" where
  "py_strip s = rev (dropWhile py_isspace (rev (dropWhile py_isspace s)))"

definition is_digit :: "char \<Rightarrow> bool" where
  "is_digit c \<longleftrightarrow> 48 \<le> (of_char c :: nat) \<and> (of_char c :: nat) \<le> 57"

text \<open>
  The digit part of an integer literal accepted by \<open>int(s)\<close>: decimal digits, single
  underscores allowed between digits only.  The flag says whether the previous character
  was a digit.
\<close>

fun digits_ok :: "bool \<Rightarrow> string \<Rightarrow> bool" where
  "digits_ok prev [] = prev"
| "digits_ok prev (c # cs) =
     (if is_digit c then digits_ok True cs
      else if c = CHR ''_'' \<and> prev then digits_ok False cs
      else False)"

definition digits_value :: "string \<Rightarrow> int" where
  "digits_value b = foldl (\<lambda>a c. 10 * a + (int (of_char c) - 48)) 0 (filter is_digit b)"

text \<open>\<open>int(s)\<close> for a string: surrounding whitespace, an optional sign, digits; \<open>ValueError\<close>
  otherwise.\<close>

definition py_int :: "string \<Rightarrow> py_exception + int" where
  "py_int s =
     (let t = py_strip s;
          neg = (t \<noteq> [] \<and> hd t = CHR ''-'');
          body = (if t \<noteq> [] \<and> (hd t = CHR ''-'' \<or> hd t = CHR ''+'') then tl t else t)
      in if digits_ok False body
         then Inr (if neg then - digits_value body else digits_value body)
         else Inl ValueError)"

text \<open>\<open>str(n)\<close> for an integer.\<close>

fun nat_digits :: "nat \<Rightarrow> string" where
  "nat_digits n =
     (if n < 10 then [char_of (48 + n)] else nat_digits (n div 10) @ [char_of (48 + n mod 10)])"

definition py_str_int :: "int \<Rightarrow> string" where
  "py_str_int i = (if i < 0 then CHR ''-'' # nat_digits (nat (- i)) else nat_digits (nat i))"

text \<open>\<open>d.get(key, default)\<close>.\<close>

definition dict_get :: "('k \<rightharpoonup> 'v) \<Rightarrow> 'k \<Rightarrow> 'v \<Rightarrow> 'v" where
  "dict_get d k dflt = (case d k of None \<Rightarrow> dflt | Some v \<Rightarrow> v)"

section \<open>Move classification and the accuracy formulas\<close>

text \<open>\<open>classify_move\<close>: inclusive upper bounds, the first match wins.\<close>

definition classify_move :: "int \<Rightarrow> string" where
  "classify_move eval_loss =
     (if eval_loss \<le> 10 then ''best''
      else if eval_loss \<le> 25 then ''good''
      else if eval_loss \<le> 50 then ''inaccuracy''
      else if eval_loss \<le> 100 then ''mistake''
      else ''blunder'')"

definition centipawns_to_win_percent :: "int \<Rightarrow> real" where
  "centipawns_to_win_percent centipawns =
     50 + 50 * (2 / (1 + exp (- 0.00368208 * real_of_int centipawns)) - 1)"

definition calculate_move_accuracy :: "real \<Rightarrow> real \<Rightarrow> real" where
  "calculate_move_accuracy win_percent_before win_percent_after =
     (let win_percent_loss = win_percent_before - win_percent_after;
          accuracy = 103.1668 * exp (- 0.04354 * win_percent_loss) - 3.1669
      in max 0 (min 100 accuracy))"

definition calculate_accuracy :: "(int \<times> int) list \<Rightarrow> real" where
  "calculate_accuracy eval_pairs =
     (if eval_pairs = [] then 0
      else
        let move_accuracies =
              map (\<lambda>(eval_before, eval_after).
                     calculate_move_accuracy (centipawns_to_win_percent eval_before)
                       (centipawns_to_win_percent eval_after))
                eval_pairs
        in sum_list move_accuracies / real (length move_accuracies))"

section \<open>The win percentage in double precision\<close>

text \<open>
  Python's \<open>float\<close> is the IEEE 754 double.  Here a double is the real number it stands
  for (infinities, NaN and the sign of zero are left out), and every operation is the exact
  one followed by rounding to the nearest double, a tie going to the even significand.
  \<open>double_ulp x\<close> is the distance between neighbouring doubles at the magnitude of \<open>x\<close>: 52
  fraction bits, exponents from \<open>-1022\<close> on, subnormal numbers below.
\<close>

definition round_half_even :: "real \<Rightarrow> int" where
  "round_half_even x =
     (let f = \<lfloor>x\<rfloor>; d = x - of_int f
      in if d < 1 / 2 then f else if d > 1 / 2 then f + 1 else if even f then f else f + 1)"

definition double_ulp :: "real \<Rightarrow> real" where
  "double_ulp x = 2 powr (of_int (max \<lfloor>log 2 \<bar>x\<bar>\<rfloor> (- 1022)) - 52)"

definition to_double :: "real \<Rightarrow> real" where
  "to_double x = (if x = 0 then 0 else of_int (round_half_even (x / double_ulp x)) * double_ulp x)"

text \<open>
  An \<open>int\<close> that meets a \<open>float\<close> in a product is converted first; the conversion raises
  \<open>OverflowError\<close> when the rounded value is beyond the largest double.
\<close>

definition int_to_double :: "int \<Rightarrow> py_exception + real" where
  "int_to_double n =
     (if 2 powr 1024 \<le> \<bar>to_double (of_int n)\<bar> then Inl OverflowError
      else Inr (to_double (of_int n)))"

text \<open>
  \<open>math.exp\<close>, taken as the exponential rounded to the nearest double; it raises
  \<open>OverflowError\<close> when the result is beyond the largest double.  (The C library's \<open>exp\<close>
  may differ from this in the last bit; at the arguments evaluated below, \<open>0\<close> and
  arguments below \<open>-36.8\<close>, that makes no difference to the results.)
\<close>

definition double_exp :: "real \<Rightarrow> py_exception + real" where
  "double_exp x =
     (if 2 powr 1024 \<le> to_double (exp x) then Inl OverflowError else Inr (to_double (exp x)))"

text \<open>
  \<open>centipawns_to_win_percent\<close> as the interpreter evaluates it, operation by operation:
  the literal \<open>0.00368208\<close> is a double, \<open>50\<close>, \<open>2\<close> and \<open>1\<close> are doubles exactly.
\<close>

definition centipawns_to_win_percent_double :: "int \<Rightarrow> py_exception + real" where
  "centipawns_to_win_percent_double centipawns =
     (case int_to_double centipawns of
        Inl e \<Rightarrow> Inl e
      | Inr c \<Rightarrow>
          (case double_exp (to_double (- to_double 0.00368208 * c)) of
             Inl e \<Rightarrow> Inl e
           | Inr x \<Rightarrow>
               Inr (to_double (50 + to_double (50 *
                      to_double (to_double (2 / to_double (1 + x)) - 1))))))"

section \<open>Engine scores\<close>

text \<open>
  A score of the engine library (python-chess, \<open>chess.engine.Score\<close>) after \<open>.white()\<close>:
  centipawns, a mate in a signed number of moves, or mate already given.  Its three
  readers are the library's: \<open>mate()\<close> is \<open>None\<close> for centipawns and \<open>0\<close> for a given mate;
  \<open>score()\<close> is \<open>None\<close> for every mate score; \<open>score(mate_score=m)\<close> turns a mate in \<open>n\<close>
  moves into \<open>m - n\<close> for \<open>n > 0\<close> and into \<open>- m - n\<close> otherwise, and a given mate into \<open>m\<close>.
\<close>

datatype score = Cp int | Mate int | MateGiven

fun score_mate :: "score \<Rightarrow> int option" where
  "score_mate (Cp x) = None"
| "score_mate (Mate n) = Some n"
| "score_mate MateGiven = Some 0"

fun score_score :: "score \<Rightarrow> int option" where
  "score_score (Cp x) = Some x"
| "score_score (Mate n) = None"
| "score_score MateGiven = None"

fun score_with_mate_score :: "int \<Rightarrow> score \<Rightarrow> int" where
  "score_with_mate_score m (Cp x) = x"
| "score_with_mate_score m (Mate n) = (if n > 0 then m - n else - m - n)"
| "score_with_mate_score m MateGiven = m"

text \<open>\<open>convert_mate_to_centipawns(score, mate_distance)\<close>.\<close>

definition convert_mate_to_centipawns :: "score \<Rightarrow> int option \<Rightarrow> int option" where
  "convert_mate_to_centipawns sc mate_distance =
     (case mate_distance of
        None \<Rightarrow> score_score sc
      | Some d \<Rightarrow>
          let base_mate_value = 10000;
              distance_penalty = \<bar>d\<bar> * 50;
              mate_value = base_mate_value - distance_penalty
          in Some (if d > 0 then mate_value else - mate_value))"

text \<open>\<open>get_eval_centipawns(info)\<close>, on the White-relative score of \<open>info\<close>.\<close>

definition get_eval_centipawns :: "score \<Rightarrow> int option" where
  "get_eval_centipawns sc =
     (let mate = score_mate sc
      in if mate \<noteq> None then convert_mate_to_centipawns sc mate else score_score sc)"

section \<open>Analysing one game\<close>

text \<open>
  What \<open>analyse_game\<close> reads from outside is collected in a record, one field per call
  the source makes: opening the file and \<open>chess.pgn.read_game\<close> (an exception, no game, or
  a game), the opening book (absent when no path is given or the path does not exist,
  otherwise the result of \<open>open_reader\<close>), starting the engine, one \<open>engine.analyse\<close> call
  followed by \<open>info['score'].white()\<close> (on an engine state, so that the engine may answer
  differently from call to call and may fail at any call), and \<open>board.push\<close>.
  Boards, moves and engine states are type parameters.
\<close>

record ('b, 'm) game =
  headers :: "string \<rightharpoonup> string"
  start_board :: 'b
  mainline_moves :: "'m list"

text \<open>
  A book reader: its truth value (\<open>if book_reader:\<close>) and \<open>find_all(board)\<close>, which yields
  entries' moves and may end by raising.
\<close>

record ('b, 'm) book_reader =
  book_truthy :: bool
  find_all :: "'b \<Rightarrow> 'm list \<times> py_exception option"

record ('b, 'm, 'e) world =
  read_game :: "py_exception + ('b, 'm) game option"
  open_book :: "(py_exception + ('b, 'm) book_reader) option"
  popen_uci :: "py_exception + 'e"
  analyse :: "'e \<Rightarrow> 'b \<Rightarrow> (py_exception + score) \<times> 'e"
  push :: "'b \<Rightarrow> 'm \<Rightarrow> 'b"

text \<open>The effects of one analysis that the claims speak about, in the order they happen.\<close>

datatype event = BookOpened | EngineStarted | EngineQuit | BookClosed | ErrorReported py_exception

text \<open>A number that is a Python \<open>int\<close> or a \<open>float\<close>: the accuracy columns hold either.\<close>

datatype py_number = PyInt int | PyFloat real

record GameStats =
  filename :: string
  white_player :: string
  black_player :: string
  white_elo :: int
  black_elo :: int
  time_control :: string
  opening_eco :: string
  result :: int
  white_accuracy :: py_number
  white_best_moves :: int
  white_good_moves :: int
  white_inaccuracies :: int
  white_mistakes :: int
  white_blunders :: int
  white_book_moves :: int
  white_total_moves :: int
  black_accuracy :: py_number
  black_best_moves :: int
  black_good_moves :: int
  black_inaccuracies :: int
  black_mistakes :: int
  black_blunders :: int
  black_book_moves :: int
  black_total_moves :: int

text \<open>The record both early exits of \<open>analyse_game\<close> build (source lines 227 and 404).\<close>

definition placeholder :: "string \<Rightarrow> GameStats" where
  "placeholder name =
     \<lparr>filename = name, white_player = '''', black_player = '''', white_elo = 0, black_elo = 0,
      time_control = ''unknown'', opening_eco = ''unknown'', result = 0,
      white_accuracy = PyInt 0, white_best_moves = 0, white_good_moves = 0,
      white_inaccuracies = 0, white_mistakes = 0, white_blunders = 0, white_book_moves = 0,
      white_total_moves = 0,
      black_accuracy = PyInt 0, black_best_moves = 0, black_good_moves = 0,
      black_inaccuracies = 0, black_mistakes = 0, black_blunders = 0, black_book_moves = 0,
      black_total_moves = 0\<rparr>"

text \<open>The local variables of the move loop (the two book counters carry a suffix, their
  names being columns of \<open>GameStats\<close> too; the column \<open>opening\<close> is the field
  \<open>opening_eco\<close>, \<open>opening\<close> being a keyword).\<close>

record ('b, 'e) loop_state =
  white_classifications :: "string \<rightharpoonup> int"
  black_classifications :: "string \<rightharpoonup> int"
  white_eval_pairs :: "(int \<times> int) list"
  black_eval_pairs :: "(int \<times> int) list"
  white_book_moves_var :: int
  black_book_moves_var :: int
  board :: 'b
  move_number :: int
  engine :: 'e

text \<open>\<open>d[k] += 1\<close> and \<open>d[k]\<close>: a missing key raises \<open>KeyError\<close>.\<close>

definition dict_incr :: "(string \<rightharpoonup> int) \<Rightarrow> string \<Rightarrow> py_exception + (string \<rightharpoonup> int)" where
  "dict_incr d k = (case d k of None \<Rightarrow> Inl KeyError | Some n \<Rightarrow> Inr (d(k \<mapsto> n + 1)))"

definition dict_index :: "(string \<rightharpoonup> int) \<Rightarrow> string \<Rightarrow> py_exception + int" where
  "dict_index d k = (case d k of None \<Rightarrow> Inl KeyError | Some n \<Rightarrow> Inr n)"

text \<open>
  Lines 317--326: the book check of one move.  The loop over \<open>find_all\<close> stops at the
  first entry with the played move; an \<open>IndexError\<close> raised by the iteration is passed
  over, any other exception leaves the function.
\<close>

definition in_book :: "('b, 'm) book_reader option \<Rightarrow> 'b \<Rightarrow> 'm \<Rightarrow> py_exception + bool" where
  "in_book rd b mv =
     (case rd of
        None \<Rightarrow> Inr False
      | Some r \<Rightarrow>
          if \<not> book_truthy r then Inr False
          else
            (case find_all r b of
               (entries, raised) \<Rightarrow>
                 if mv \<in> set entries then Inr True
                 else
                   (case raised of
                      None \<Rightarrow> Inr False
                    | Some e \<Rightarrow> if e = IndexError then Inr False else Inl e)))"

text \<open>Lines 313--365: the body of the move loop, for one move.\<close>

definition analyse_move ::
  "('b, 'm, 'e) world \<Rightarrow> ('b, 'm) book_reader option \<Rightarrow> ('b, 'e) loop_state \<Rightarrow> 'm \<Rightarrow>
     py_exception + ('b, 'e) loop_state" where
  "analyse_move w rd st mv =
     (let n = move_number st + 1;
          is_white_move = (n mod 2 = 1);
          st1 = st\<lparr>move_number := n\<rparr>
      in case in_book rd (board st) mv of
           Inl e \<Rightarrow> Inl e
         | Inr found \<Rightarrow>
             if found then
               Inr ((if is_white_move
                     then st1\<lparr>white_book_moves_var := white_book_moves_var st + 1\<rparr>
                     else st1\<lparr>black_book_moves_var := black_book_moves_var st + 1\<rparr>)
                      \<lparr>board := push w (board st) mv\<rparr>)
             else
               (case analyse w (engine st) (board st) of
                  (Inl e, eng1) \<Rightarrow> Inl e
                | (Inr info_before, eng1) \<Rightarrow>
                    let eval_before = get_eval_centipawns info_before;
                        board1 = push w (board st) mv
                    in (case analyse w eng1 board1 of
                          (Inl e, eng2) \<Rightarrow> Inl e
                        | (Inr info_after, eng2) \<Rightarrow>
                            let eval_after = score_with_mate_score 10000 info_after
                            in (case eval_before of
                                  None \<Rightarrow> Inl TypeError
                                | Some eb \<Rightarrow>
                                    let eval_loss =
                                          max 0 (if is_white_move then eb - eval_after
                                                 else eval_after - eb);
                                        classification = classify_move eval_loss;
                                        st2 = st1\<lparr>board := board1, engine := eng2\<rparr>
                                    in if is_white_move then
                                         (case dict_incr (white_classifications st) classification of
                                            Inl e \<Rightarrow> Inl e
                                          | Inr d \<Rightarrow>
                                              Inr (st2\<lparr>white_eval_pairs :=
                                                          white_eval_pairs st @ [(eb, eval_after)],
                                                        white_classifications := d\<rparr>))
                                       else
                                         (case dict_incr (black_classifications st) classification of
                                            Inl e \<Rightarrow> Inl e
                                          | Inr d \<Rightarrow>
                                              Inr (st2\<lparr>black_eval_pairs :=
                                                          black_eval_pairs st @ [(- eb, - eval_after)],
                                                        black_classifications := d\<rparr>))))))"

text \<open>Line 312: the loop over the moves; the first exception ends it.\<close>

fun move_loop ::
  "('b, 'm, 'e) world \<Rightarrow> ('b, 'm) book_reader option \<Rightarrow> ('b, 'e) loop_state \<Rightarrow> 'm list \<Rightarrow>
     py_exception + ('b, 'e) loop_state" where
  "move_loop w rd st [] = Inr st"
| "move_loop w rd st (mv # mvs) =
     (case analyse_move w rd st mv of
        Inl e \<Rightarrow> Inl e
      | Inr st' \<Rightarrow> move_loop w rd st' mvs)"

text \<open>Lines 234--242.\<close>

definition parse_result :: "string \<Rightarrow> int" where
  "parse_result result_str =
     (if result_str = ''1-0'' then 1
      else if result_str = ''0-1'' then - 1
      else if result_str = ''1/2-1/2'' then 0
      else 0)"

text \<open>Lines 248--255: both ratings are converted inside one \<open>try\<close>, whose handler for
  \<open>ValueError\<close> sets both to 0.\<close>

definition parse_elos :: "(string \<rightharpoonup> string) \<Rightarrow> py_exception + int \<times> int" where
  "parse_elos h =
     (let white_elo' = dict_get h ''WhiteElo'' ''0'';
          black_elo' = dict_get h ''BlackElo'' ''0'';
          converted =
            (case py_int white_elo' of
               Inl e \<Rightarrow> Inl e
             | Inr we \<Rightarrow> (case py_int black_elo' of Inl e \<Rightarrow> Inl e | Inr be \<Rightarrow> Inr (we, be)))
      in case converted of
           Inl e \<Rightarrow> if e = ValueError then Inr (0, 0) else Inl e
         | Inr p \<Rightarrow> Inr p)"

text \<open>Lines 258--278: the time class.  \<open>tc.split("+")[0]\<close> is the text before the first
  \<open>+\<close>.\<close>

definition classify_time_control :: "(string \<rightharpoonup> string) \<Rightarrow> py_exception + string" where
  "classify_time_control h =
     (let tc = dict_get h ''TimeControl'' ''''
      in if tc \<noteq> '''' \<and> tc \<noteq> ''-'' then
           (if CHR ''/'' \<in> set tc then Inr ''daily''
            else
              (case py_int (takeWhile (\<lambda>c. c \<noteq> CHR ''+'') tc) of
                 Inl e \<Rightarrow> if e = ValueError \<or> e = IndexError then Inr ''unknown'' else Inl e
               | Inr base_time \<Rightarrow>
                   Inr (if base_time < 180 then ''bullet''
                        else if base_time \<le> 300 then ''blitz''
                        else if base_time \<le> 3600 then ''rapid''
                        else ''classical'')))
         else Inr ''unknown'')"

text \<open>\<open>round(x, 1)\<close> in exact arithmetic: to the nearest tenth, a tie to the even one
  (\<open>round_half_even\<close> rounds to the nearest integer in that way).\<close>

definition py_round1 :: "real \<Rightarrow> real" where
  "py_round1 x = of_int (round_half_even (x * 10)) / 10"

text \<open>Lines 289--310: the loop's variables before the first move.\<close>

definition zero_classifications :: "string \<rightharpoonup> int" where
  "zero_classifications =
     [''best'' \<mapsto> 0, ''good'' \<mapsto> 0, ''inaccuracy'' \<mapsto> 0, ''mistake'' \<mapsto> 0, ''blunder'' \<mapsto> 0]"

definition initial_state :: "'b \<Rightarrow> 'e \<Rightarrow> ('b, 'e) loop_state" where
  "initial_state b eng =
     \<lparr>white_classifications = zero_classifications,
      black_classifications = zero_classifications,
      white_eval_pairs = [], black_eval_pairs = [],
      white_book_moves_var = 0, black_book_moves_var = 0,
      board = b, move_number = 0, engine = eng\<rparr>"

text \<open>The five counters of one colour, read as \<open>d['best']\<close> ... \<open>d['blunder']\<close>; a missing
  key raises \<open>KeyError\<close>.\<close>

definition read_counts :: "(string \<rightharpoonup> int) \<Rightarrow> py_exception + (int \<times> int \<times> int \<times> int \<times> int)" where
  "read_counts d =
     (case dict_index d ''best'' of Inl e \<Rightarrow> Inl e | Inr b \<Rightarrow>
     (case dict_index d ''good'' of Inl e \<Rightarrow> Inl e | Inr g \<Rightarrow>
     (case dict_index d ''inaccuracy'' of Inl e \<Rightarrow> Inl e | Inr i \<Rightarrow>
     (case dict_index d ''mistake'' of Inl e \<Rightarrow> Inl e | Inr m \<Rightarrow>
     (case dict_index d ''blunder'' of Inl e \<Rightarrow> Inl e | Inr bl \<Rightarrow> Inr (b, g, i, m, bl))))))"

text \<open>Lines 371--400: the record built after the loop.\<close>

definition build_stats ::
  "string \<Rightarrow> string \<Rightarrow> string \<Rightarrow> int \<Rightarrow> int \<Rightarrow> string \<Rightarrow> string \<Rightarrow> int \<Rightarrow>
     ('b, 'e) loop_state \<Rightarrow> py_exception + GameStats" where
  "build_stats name wp bp we be tc op res st =
     (let white_acc = calculate_accuracy (white_eval_pairs st);
          black_acc = calculate_accuracy (black_eval_pairs st)
      in case read_counts (white_classifications st) of
           Inl e \<Rightarrow> Inl e
         | Inr (wb, wg, wi, wm, wbl) \<Rightarrow>
             (case read_counts (black_classifications st) of
                Inl e \<Rightarrow> Inl e
              | Inr (bb, bg, bi, bm, bbl) \<Rightarrow>
                  Inr \<lparr>filename = name, white_player = wp, black_player = bp,
                       white_elo = we, black_elo = be, time_control = tc, opening_eco = op,
                       result = res,
                       white_accuracy = PyFloat (py_round1 white_acc),
                       white_best_moves = wb, white_good_moves = wg, white_inaccuracies = wi,
                       white_mistakes = wm, white_blunders = wbl,
                       white_book_moves = white_book_moves_var st,
                       white_total_moves =
                         int (length (white_eval_pairs st)) + white_book_moves_var st,
                       black_accuracy = PyFloat (py_round1 black_acc),
                       black_best_moves = bb, black_good_moves = bg, black_inaccuracies = bi,
                       black_mistakes = bm, black_blunders = bbl,
                       black_book_moves = black_book_moves_var st,
                       black_total_moves =
                         int (length (black_eval_pairs st)) + black_book_moves_var st\<rparr>))"

text \<open>
  Lines 222--400, the body of the \<open>try\<close>: the events so far, and either the exception
  that left the body or the record it returned.  \<open>engine.quit()\<close> and \<open>book_reader.close()\<close>
  stand after the loop (lines 367--369) and are taken to succeed.
\<close>

definition analyse_game_try ::
  "('b, 'm, 'e) world \<Rightarrow> string \<Rightarrow> event list \<times> (py_exception + GameStats)" where
  "analyse_game_try w name =
     (case read_game w of
        Inl e \<Rightarrow> ([], Inl e)
      | Inr None \<Rightarrow> ([], Inr (placeholder name))
      | Inr (Some g) \<Rightarrow>
          let white_player' = dict_get (headers g) ''White'' ''unknown'';
              black_player' = dict_get (headers g) ''Black'' ''unknown'';
              result' = parse_result (dict_get (headers g) ''Result'' ''*'');
              opening' = dict_get (headers g) ''ECO'' ''unknown''
          in (case parse_elos (headers g) of
                Inl e \<Rightarrow> ([], Inl e)
              | Inr (white_elo', black_elo') \<Rightarrow>
                  (case classify_time_control (headers g) of
                     Inl e \<Rightarrow> ([], Inl e)
                   | Inr time_control' \<Rightarrow>
                       (case open_book w of
                          Some (Inl e) \<Rightarrow> ([], Inl e)
                        | opened \<Rightarrow>
                            let book_reader = (case opened of Some (Inr r) \<Rightarrow> Some r | _ \<Rightarrow> None);
                                log1 = (case book_reader of Some r \<Rightarrow> [BookOpened] | None \<Rightarrow> [])
                            in (case popen_uci w of
                                  Inl e \<Rightarrow> (log1, Inl e)
                                | Inr eng \<Rightarrow>
                                    let log2 = log1 @ [EngineStarted]
                                    in (case move_loop w book_reader
                                               (initial_state (start_board g) eng)
                                               (mainline_moves g) of
                                          Inl e \<Rightarrow> (log2, Inl e)
                                        | Inr st \<Rightarrow>
                                            let log3 =
                                                  log2 @ [EngineQuit] @
                                                  (case book_reader of
                                                     Some r \<Rightarrow>
                                                       if book_truthy r then [BookClosed] else []
                                                   | None \<Rightarrow> [])
                                            in (log3,
                                                build_stats name white_player' black_player'
                                                  white_elo' black_elo' time_control' opening' result'
                                                  st)))))))"

text \<open>\<open>analyse_game\<close>: the \<open>except Exception\<close> handler reports the exception and returns
  the placeholder.\<close>

definition analyse_game :: "('b, 'm, 'e) world \<Rightarrow> string \<Rightarrow> event list \<times> GameStats" where
  "analyse_game w name =
     (case analyse_game_try w name of
        (events, Inl e) \<Rightarrow> (events @ [ErrorReported e], placeholder name)
      | (events, Inr stats) \<Rightarrow> (events, stats))"

section \<open>The output file and the batch\<close>

abbreviation TAB :: char where "TAB \<equiv> CHR 0x09"
abbreviation LF :: char where "LF \<equiv> CHR 0x0A"
abbreviation CR :: char where "CR \<equiv> CHR 0x0D"

text \<open>Fields separated by tabs, as the two format strings of \<open>analyse_all_games\<close> write
  them.\<close>

fun join_tab :: "string list \<Rightarrow> string" where
  "join_tab [] = []"
| "join_tab [x] = x"
| "join_tab (x # y # ys) = x @ TAB # join_tab (y # ys)"

definition column_names :: "string list" where
  "column_names =
     [''filename'', ''white_player'', ''black_player'', ''white_elo'', ''black_elo'',
      ''time_control'', ''opening'', ''result'',
      ''white_accuracy'', ''white_best_moves'', ''white_good_moves'', ''white_inaccuracies'',
      ''white_mistakes'', ''white_blunders'', ''white_book_moves'', ''white_total_moves'',
      ''black_accuracy'', ''black_best_moves'', ''black_good_moves'', ''black_inaccuracies'',
      ''black_mistakes'', ''black_blunders'', ''black_book_moves'', ''black_total_moves'']"

text \<open>Lines 484--488.\<close>

definition header_line :: string where
  "header_line = join_tab column_names @ [LF]"

text \<open>\<open>str\<close> of a number; how a \<open>float\<close> prints is a parameter.\<close>

fun str_number :: "(real \<Rightarrow> string) \<Rightarrow> py_number \<Rightarrow> string" where
  "str_number float_str (PyInt i) = py_str_int i"
| "str_number float_str (PyFloat x) = float_str x"

text \<open>Lines 499--506: the row of one game.\<close>

definition format_row :: "(real \<Rightarrow> string) \<Rightarrow> GameStats \<Rightarrow> string" where
  "format_row float_str stats =
     join_tab
       [filename stats, white_player stats, black_player stats,
        py_str_int (white_elo stats), py_str_int (black_elo stats), time_control stats,
        opening_eco stats, py_str_int (result stats),
        str_number float_str (white_accuracy stats), py_str_int (white_best_moves stats),
        py_str_int (white_good_moves stats), py_str_int (white_inaccuracies stats),
        py_str_int (white_mistakes stats), py_str_int (white_blunders stats),
        py_str_int (white_book_moves stats), py_str_int (white_total_moves stats),
        str_number float_str (black_accuracy stats), py_str_int (black_best_moves stats),
        py_str_int (black_good_moves stats), py_str_int (black_inaccuracies stats),
        py_str_int (black_mistakes stats), py_str_int (black_blunders stats),
        py_str_int (black_book_moves stats), py_str_int (black_total_moves stats)]
     @ [LF]"

text \<open>
  Reading a file opened with \<open>open(output_file, 'r')\<close>: \<open>\r\n\<close> and \<open>\r\<close> arrive as
  \<open>\n\<close>, and iterating yields the lines with their terminators.
\<close>

fun universal_newlines :: "string \<Rightarrow> string" where
  "universal_newlines [] = []"
| "universal_newlines [c] = [if c = CR then LF else c]"
| "universal_newlines (c # d # ds) =
     (if c = CR \<and> d = LF then LF # universal_newlines ds
      else if c = CR then LF # universal_newlines (d # ds)
      else c # universal_newlines (d # ds))"

fun lines_from :: "string \<Rightarrow> string \<Rightarrow> string list" where
  "lines_from cur [] = (if cur = [] then [] else [cur])"
| "lines_from cur (c # cs) =
     (if c = LF then (cur @ [c]) # lines_from [] cs else lines_from (cur @ [c]) cs)"

definition file_lines :: "string \<Rightarrow> string list" where
  "file_lines content = lines_from [] (universal_newlines content)"

text \<open>
  \<open>load_processed_files\<close>, on the output file as it is (\<open>None\<close> when it does not exist).
  The whole read stands in a \<open>try\<close> whose handler for \<open>Exception\<close> prints a warning and
  keeps the names added so far.  Reading can fail at \<open>open\<close> or at any line (no permission,
  bytes that do not decode): \<open>read_failure\<close> is \<open>None\<close> when it does not, and \<open>Some k\<close>
  when exactly \<open>k\<close> lines are delivered before the exception.  \<open>next(f)\<close> on a file that
  delivers no line raises (\<open>StopIteration\<close>, or the read's own exception), which the
  handler turns into the empty set; \<open>line.split('\t')[0]\<close> is the text before the first tab.
\<close>

definition load_processed_files :: "nat option \<Rightarrow> string option \<Rightarrow> string set" where
  "load_processed_files read_failure output_file =
     (case output_file of
        None \<Rightarrow> {}
      | Some content \<Rightarrow>
          let delivered =
                (case read_failure of
                   None \<Rightarrow> file_lines content
                 | Some k \<Rightarrow> take k (file_lines content))
          in (case delivered of
                [] \<Rightarrow> {}
              | header # rest \<Rightarrow>
                  set (filter (\<lambda>fname. fname \<noteq> [])
                         (map (\<lambda>line. py_strip (takeWhile (\<lambda>c. c \<noteq> TAB) line)) rest))))"

text \<open>
  What one run of \<open>analyse_all_games\<close> meets: the names of the files that
  \<open>glob("*.pgn")\<close> finds, what analysing each of them meets, the machine's CPU count, the
  order in which \<open>imap_unordered\<close> hands back the submitted games, how a \<open>float\<close>
  prints, and whether reading the existing output file fails and after how many lines.
\<close>

record ('b, 'm, 'e) batch =
  glob_pgn :: "string list"
  worlds :: "string \<Rightarrow> ('b, 'm, 'e) world"
  cpu_count :: int
  completion_order :: "string list \<Rightarrow> string list"
  float_str :: "real \<Rightarrow> string"
  read_failure :: "nat option"

text \<open>
  \<open>analyse_all_games\<close>: the output file after the run, and the exception that ended the run
  if one did (\<open>Pool(processes=n)\<close> raises \<open>ValueError\<close> for \<open>n < 1\<close>, after the header has
  been written).  Creating the output file and appending to it are taken to succeed.
\<close>

definition analyse_all_games ::
  "('b, 'm, 'e) batch \<Rightarrow> int option \<Rightarrow> string option \<Rightarrow> string option \<times> py_exception option" where
  "analyse_all_games bt num_processes output_file =
     (let all_pgn_files = sort (glob_pgn bt)
      in if all_pgn_files = [] then (output_file, None)
         else
           let processed_files = load_processed_files (read_failure bt) output_file;
               pgn_files = filter (\<lambda>f. f \<notin> processed_files) all_pgn_files
           in if pgn_files = [] then (output_file, None)
              else
                let n = (case num_processes of None \<Rightarrow> cpu_count bt - 4 | Some k \<Rightarrow> k);
                    with_header = (case output_file of None \<Rightarrow> header_line | Some c \<Rightarrow> c)
                in if n < 1 then (Some with_header, Some ValueError)
                   else
                     (Some (foldl
                              (\<lambda>content f.
                                 content @
                                 format_row (float_str bt) (snd (analyse_game (worlds bt f) f)))
                              with_header (completion_order bt pgn_files)),
                      None))"

text \<open>
  A file name that reads back from column 1 as it was written: not empty, no tab and no
  line break in it, no white space at either end.
\<close>

definition plain_name :: "string \<Rightarrow> bool" where
  "plain_name n \<longleftrightarrow>
     n \<noteq> [] \<and> TAB \<notin> set n \<and> LF \<notin> set n \<and> CR \<notin> set n \<and>
     \<not> py_isspace (hd n) \<and> \<not> py_isspace (last n)"

section \<open>Auxiliary definitions for the proofs\<close>

text \<open>The five counters of a dictionary are all there and add up to \<open>n\<close>.\<close>

definition counted :: "(string \<rightharpoonup> int) \<Rightarrow> int \<Rightarrow> bool" where
  "counted d n =
     (case read_counts d of
        Inl e \<Rightarrow> False
      | Inr (b, g, i, m, bl) \<Rightarrow> b + g + i + m + bl = n)"

text \<open>The loop invariant: for each colour, the counters add up to the number of stored
  pairs, and pairs and book moves together are that colour's plies so far.\<close>

definition tallies_agree :: "('b, 'e) loop_state \<Rightarrow> bool" where
  "tallies_agree st \<longleftrightarrow>
     counted (white_classifications st) (int (length (white_eval_pairs st))) \<and>
     counted (black_classifications st) (int (length (black_eval_pairs st))) \<and>
     0 \<le> move_number st \<and>
     int (length (white_eval_pairs st)) + white_book_moves_var st = (move_number st + 1) div 2 \<and>
     int (length (black_eval_pairs st)) + black_book_moves_var st = move_number st div 2"

text \<open>
  A world for concrete runs: boards are the lists of moves played, moves are numbers, no
  book, and the engine answers from a script, one score per call, failing with
  \<open>EngineError\<close> once the script is used up.
\<close>

definition scripted_engine :: "score list \<Rightarrow> 'b \<Rightarrow> (py_exception + score) \<times> score list" where
  "scripted_engine script b =
     (case script of [] \<Rightarrow> (Inl EngineError, []) | s # rest \<Rightarrow> (Inr s, rest))"

definition scripted_world ::
  "py_exception + (nat list, nat) game option \<Rightarrow> score list \<Rightarrow> (nat list, nat, score list) world" where
  "scripted_world file script =
     \<lparr>read_game = file, open_book = None, popen_uci = Inr script,
      analyse = scripted_engine, push = (\<lambda>b m. b @ [m])\<rparr>"

definition game_of :: "(string \<rightharpoonup> string) \<Rightarrow> nat list \<Rightarrow> (nat list, nat) game" where
  "game_of h moves = \<lparr>headers = h, start_board = [], mainline_moves = moves\<rparr>"

text \<open>A text that ends with a line feed, and what \<open>load_processed_files\<close> takes from one
  line and from a list of lines.\<close>

definition ends_lf :: "string \<Rightarrow> bool" where
  "ends_lf s \<longleftrightarrow> s \<noteq> [] \<and> last s = LF"

definition first_column :: "string \<Rightarrow> string" where
  "first_column line = py_strip (takeWhile (\<lambda>c. c \<noteq> TAB) line)"

definition names_in :: "string list \<Rightarrow> string set" where
  "names_in ls = set (filter (\<lambda>fname. fname \<noteq> []) (map first_column ls))"

text \<open>
  A directory with one file, for concrete runs: the file holds no game (so its row is the
  placeholder's), eight CPUs, results handed back in the order submitted, an output file
  that can be read.
\<close>

definition one_file_batch :: "string \<Rightarrow> (nat list, nat, score list) batch" where
  "one_file_batch n =
     \<lparr>glob_pgn = [n], worlds = (\<lambda>f. scripted_world (Inr None) []), cpu_count = 8,
      completion_order = (\<lambda>fs. fs), float_str = (\<lambda>x. []), read_failure = None\<rparr>"

text \<open>
  Two names for parts of \<open>analyse_all_games\<close>: the source's list \<open>pgn_files\<close> (the sorted
  directory without the processed names), and the text that the loop over the results
  appends for a list of games, one row each, in the order given.
\<close>

definition pending_files :: "('b, 'm, 'e) batch \<Rightarrow> string option \<Rightarrow> string list" where
  "pending_files bt output_file =
     filter (\<lambda>f. f \<notin> load_processed_files (read_failure bt) output_file) (sort (glob_pgn bt))"

definition written_rows :: "('b, 'm, 'e) batch \<Rightarrow> string list \<Rightarrow> string" where
  "written_rows bt fs =
     concat (map (\<lambda>f. format_row (float_str bt) (snd (analyse_game (worlds bt f) f))) fs)"


section \<open>Properties\<close>

subsection \<open>Python helpers\<close>

lemma py_int_raises_only_ValueError: "py_int s = Inl e \<Longrightarrow> e = ValueError"
  by (auto simp: py_int_def Let_def split: if_splits)

lemma get_eval_centipawns_total: "\<exists>v. get_eval_centipawns sc = Some v"
  by (cases sc) (simp_all add: get_eval_centipawns_def convert_mate_to_centipawns_def Let_def)

subsection \<open>Mate scores\<close>

text \<open>
  C10.  For a mate distance \<open>d \<noteq> 0\<close>, \<open>convert_mate_to_centipawns\<close> returns
  \<open>sign(d) * (10000 - 50 * |d|)\<close> and clamps nothing: the sign of the result is the sign of
  \<open>d\<close> exactly when \<open>|d| \<le> 199\<close>; from \<open>|d| = 200\<close> on the result is zero or has the
  opposite sign, and a mate in 201 for White gives \<open>-50\<close>.
\<close>

theorem convert_mate_no_clamping:
  assumes "d \<noteq> 0"
  shows "convert_mate_to_centipawns sc (Some d) = Some (sgn d * (10000 - 50 * \<bar>d\<bar>))
       \<and> (sgn (sgn d * (10000 - 50 * \<bar>d\<bar>)) = sgn d \<longleftrightarrow> \<bar>d\<bar> \<le> 199)
       \<and> convert_mate_to_centipawns sc (Some 201) = Some (- 50)"
proof -
  have conv: "convert_mate_to_centipawns sc (Some d) = Some (sgn d * (10000 - 50 * \<bar>d\<bar>))"
    using assms by (simp add: convert_mate_to_centipawns_def Let_def sgn_if)
  have sign: "sgn (sgn d * (10000 - 50 * \<bar>d\<bar>)) = sgn d \<longleftrightarrow> \<bar>d\<bar> \<le> 199"
    using assms by (auto simp: sgn_if split: if_splits)
  have example: "convert_mate_to_centipawns sc (Some 201) = Some (- 50)"
    by (simp add: convert_mate_to_centipawns_def Let_def)
  from conv sign example show ?thesis by blast
qed

theorem convert_mate_no_clamping_witness:
  "(200 :: int) \<noteq> 0
   \<and> convert_mate_to_centipawns (Mate 200) (Some 200) = Some 0
   \<and> sgn (0 :: int) \<noteq> sgn (200 :: int)"
  using convert_mate_no_clamping [of 200 "Mate 200"] by simp

text \<open>
  C4, as the code has it.  Before the move the evaluation is \<open>get_eval_centipawns\<close>: a mate
  in \<open>n \<noteq> 0\<close> becomes \<open>sign(n) * (10000 - 50 * |n|)\<close>, so \<open>+1\<close> gives 9950 and \<open>-3\<close> gives
  \<open>-9850\<close>.  After the move the evaluation is \<open>score(mate_score=10000)\<close>: a mate in \<open>n\<close>
  becomes \<open>sign(n) * (10000 - |n|)\<close>, one centipawn per move instead of fifty, and only a
  mate already given is the flat 10000.
\<close>

theorem mate_normalisation_before_and_after:
  assumes "n \<noteq> 0"
  shows "get_eval_centipawns (Mate n) = Some (sgn n * (10000 - 50 * \<bar>n\<bar>))
       \<and> score_with_mate_score 10000 (Mate n) = sgn n * (10000 - \<bar>n\<bar>)
       \<and> score_with_mate_score 10000 MateGiven = 10000
       \<and> get_eval_centipawns (Mate 1) = Some 9950
       \<and> get_eval_centipawns (Mate (- 3)) = Some (- 9850)"
  using assms
  by (simp add: get_eval_centipawns_def convert_mate_to_centipawns_def Let_def sgn_if)

theorem mate_normalisation_before_and_after_witness:
  "(3 :: int) \<noteq> 0
   \<and> get_eval_centipawns (Mate 3) = Some 9850
   \<and> score_with_mate_score 10000 (Mate 3) = 9997"
  using mate_normalisation_before_and_after [of 3] by simp

text \<open>The claim as written fails: after the move, a mate in 3 is not turned into 10000.\<close>

theorem mate_after_move_not_flat:
  "score_mate (Mate 3) \<noteq> None \<and> score_with_mate_score 10000 (Mate 3) \<noteq> 10000
   \<and> score_with_mate_score 10000 (Mate 3) \<noteq> score_with_mate_score 10000 (Mate 1)"
  by simp

subsection \<open>The accuracy formulas, in exact arithmetic\<close>

text \<open>
  C7, as the code has it.  With no loss the formula gives \<open>103.1668 - 3.1669 = 99.9999\<close>,
  which the clamp leaves as it is; whenever the win percentage did not drop, the result
  lies between 99.9999 and 100, and it is 100 only once
  \<open>103.1668 * exp(-0.04354 * loss)\<close> has reached 103.1669.
\<close>

theorem move_accuracy_without_loss:
  assumes "win_before \<le> win_after"
  shows "calculate_move_accuracy w w = 99.9999
       \<and> 99.9999 \<le> calculate_move_accuracy win_before win_after
       \<and> calculate_move_accuracy win_before win_after \<le> 100
       \<and> (calculate_move_accuracy win_before win_after = 100
            \<longleftrightarrow> 103.1669 \<le> 103.1668 * exp (- 0.04354 * (win_before - win_after)))"
proof -
  have same: "calculate_move_accuracy w w = 99.9999"
    by (simp add: calculate_move_accuracy_def Let_def)
  have "0 \<le> - 0.04354 * (win_before - win_after)"
    using assms by (simp add: mult_le_0_iff)
  then have "1 \<le> exp (- 0.04354 * (win_before - win_after))"
    by (simp only: one_le_exp_iff)
  then have raw: "99.9999 \<le> 103.1668 * exp (- 0.04354 * (win_before - win_after)) - 3.1669"
    by simp
  define a where "a = 103.1668 * exp (- 0.04354 * (win_before - win_after)) - 3.1669"
  have acc: "calculate_move_accuracy win_before win_after = max 0 (min 100 a)"
    by (simp add: calculate_move_accuracy_def Let_def a_def)
  have low: "99.9999 \<le> a"
    using raw by (simp add: a_def)
  have hit: "103.1669 \<le> 103.1668 * exp (- 0.04354 * (win_before - win_after)) \<longleftrightarrow> 100 \<le> a"
  proof -
    have "103.1669 \<le> 103.1668 * e \<longleftrightarrow> 100 \<le> 103.1668 * e - 3.1669" for e :: real
      by (simp add: field_simps)
    then show ?thesis
      unfolding a_def .
  qed
  have "99.9999 \<le> max 0 (min 100 a) \<and> max 0 (min 100 a) \<le> 100
        \<and> (max 0 (min 100 a) = 100 \<longleftrightarrow> 100 \<le> a)"
    using low by (auto simp: min_def max_def)
  with same acc hit show ?thesis
    by simp
qed

theorem move_accuracy_without_loss_witness:
  "(50 :: real) \<le> 50 \<and> calculate_move_accuracy 50 50 = 99.9999"
  using move_accuracy_without_loss [of 50 50 50] by simp

text \<open>The claim as written fails: an unchanged win percentage does not give 100.\<close>

theorem move_accuracy_same_not_100: "calculate_move_accuracy 50 50 \<noteq> 100"
  by (simp add: calculate_move_accuracy_def Let_def)

text \<open>
  The win-percentage curve in exact arithmetic: 50 at 0, strictly increasing, strictly
  between 0 and 100.  What the doubles make of it follows in the next two subsections.
\<close>

lemma win_percent_closed_form:
  "centipawns_to_win_percent c = 100 / (1 + exp (- 0.00368208 * real_of_int c))"
proof -
  have "1 + exp (- 0.00368208 * real_of_int c) \<noteq> 0"
    using exp_gt_zero [of "- 0.00368208 * real_of_int c"] by linarith
  then show ?thesis
    by (simp add: centipawns_to_win_percent_def field_simps)
qed

lemma win_percent_at_zero: "centipawns_to_win_percent 0 = 50"
  by (simp add: centipawns_to_win_percent_def)

lemma win_percent_strictly_increasing:
  assumes "a < b"
  shows "centipawns_to_win_percent a < centipawns_to_win_percent b"
proof -
  have "exp (- 0.00368208 * real_of_int b) < exp (- 0.00368208 * real_of_int a)"
    using assms by simp
  moreover have "0 < 1 + exp (- 0.00368208 * real_of_int b)"
    using exp_gt_zero [of "- 0.00368208 * real_of_int b"] by linarith
  ultimately show ?thesis
    unfolding win_percent_closed_form
    by (intro divide_strict_left_mono) (simp_all add: add_pos_pos)
qed

lemma win_percent_bounds:
  "0 < centipawns_to_win_percent c \<and> centipawns_to_win_percent c < 100"
proof -
  define x where "x = exp (- 0.00368208 * real_of_int c)"
  have pos: "0 < x"
    unfolding x_def by (rule exp_gt_zero)
  then have "0 < 100 / (1 + x)"
    by simp
  moreover from pos have "100 / (1 + x) < 100"
    by (simp add: field_simps)
  ultimately show ?thesis
    unfolding win_percent_closed_form x_def by simp
qed

subsection \<open>Rounding to doubles\<close>

lemma round_half_even_int: "round_half_even (of_int m) = m"
  by (simp add: round_half_even_def Let_def)

lemma round_half_even_near: "\<bar>of_int (round_half_even y) - y\<bar> \<le> 1 / 2"
proof -
  have "of_int \<lfloor>y\<rfloor> \<le> y" and "y < of_int \<lfloor>y\<rfloor> + 1"
    by linarith+
  then show ?thesis
    by (auto simp: round_half_even_def Let_def)
qed

lemma round_half_even_nonneg: "0 \<le> y \<Longrightarrow> 0 \<le> round_half_even y"
  by (auto simp: round_half_even_def Let_def)

lemma round_half_even_just_above:
  assumes "0 \<le> r" and "r \<le> 1 / 2" and "even m"
  shows "round_half_even (of_int m + r) = m"
proof -
  from assms have "\<lfloor>of_int m + r\<rfloor> = m"
    by (intro floor_unique) simp_all
  with assms show ?thesis
    by (auto simp: round_half_even_def Let_def)
qed

lemma floor_log2:
  assumes "2 powr of_int k \<le> x" and "x < 2 powr (of_int k + 1)"
  shows "\<lfloor>log 2 x\<rfloor> = k"
proof -
  have "0 < (2 :: real) powr of_int k"
    by simp
  with assms(1) have pos: "0 < x"
    by linarith
  from assms(1) pos have "of_int k \<le> log 2 x"
    by (simp add: le_log_iff)
  moreover from assms(2) pos have "log 2 x < of_int k + 1"
    by (simp add: log_less_iff)
  ultimately show ?thesis
    by (intro floor_unique) simp_all
qed

lemma double_ulp_pos: "0 < double_ulp x"
  by (simp add: double_ulp_def)

lemma double_ulp_at:
  assumes "2 powr of_int k \<le> \<bar>x\<bar>" and "\<bar>x\<bar> < 2 powr (of_int k + 1)" and "- 1022 \<le> k"
  shows "double_ulp x = 2 powr (of_int k - 52)"
  using floor_log2 [OF assms(1,2)] assms(3) by (simp add: double_ulp_def max_def)

lemma to_double_exact:
  assumes "2 powr of_int k \<le> \<bar>x\<bar>" and "\<bar>x\<bar> < 2 powr (of_int k + 1)" and "- 1022 \<le> k"
    and "x = of_int m * 2 powr (of_int k - 52)"
  shows "to_double x = x"
proof -
  note ulp = double_ulp_at [OF assms(1-3)]
  have "0 < (2 :: real) powr of_int k"
    by simp
  with assms(1) have nz: "x \<noteq> 0"
    by linarith
  have "x / double_ulp x = of_int m"
    unfolding ulp using assms(4) by simp
  then have r: "round_half_even (x / double_ulp x) = m"
    by (simp add: round_half_even_int)
  from nz have "to_double x = of_int (round_half_even (x / double_ulp x)) * double_ulp x"
    by (simp add: to_double_def)
  also have "\<dots> = of_int m * double_ulp x"
    by (simp only: r)
  also have "\<dots> = of_int m * 2 powr (of_int k - 52)"
    by (simp only: ulp)
  also have "\<dots> = x"
    using assms(4) by simp
  finally show ?thesis .
qed

lemma to_double_near: "\<bar>to_double x - x\<bar> \<le> double_ulp x / 2"
proof (cases "x = 0")
  case True
  then show ?thesis
    using double_ulp_pos [of x] by (simp add: to_double_def)
next
  case False
  define u where "u = double_ulp x"
  have u: "0 < u"
    unfolding u_def by (rule double_ulp_pos)
  then have "to_double x - x = (of_int (round_half_even (x / u)) - x / u) * u"
    using False by (simp add: to_double_def u_def field_simps)
  then have "\<bar>to_double x - x\<bar> = \<bar>of_int (round_half_even (x / u)) - x / u\<bar> * u"
    using u by (simp add: abs_mult)
  also have "\<dots> \<le> 1 / 2 * u"
    using round_half_even_near [of "x / u"] u by (intro mult_right_mono) simp_all
  finally show ?thesis
    by (simp add: u_def)
qed

lemma to_double_nonneg: "0 \<le> x \<Longrightarrow> 0 \<le> to_double x"
  using double_ulp_pos [of x]
  by (simp add: to_double_def round_half_even_nonneg)

lemma double_ulp_le:
  assumes "x \<noteq> 0"
  shows "double_ulp x \<le> max (\<bar>x\<bar> * 2 powr (- 52)) (2 powr (- 100))"
proof (cases "- 1022 \<le> \<lfloor>log 2 \<bar>x\<bar>\<rfloor>")
  case True
  then have m: "max \<lfloor>log 2 \<bar>x\<bar>\<rfloor> (- 1022) = \<lfloor>log 2 \<bar>x\<bar>\<rfloor>"
    by (rule max_absorb1)
  have cancel: "2 powr log 2 \<bar>x\<bar> = \<bar>x\<bar>"
    using assms by simp
  have "2 powr (log 2 \<bar>x\<bar> + (- 52)) = 2 powr log 2 \<bar>x\<bar> * 2 powr (- 52)"
    by (rule powr_add)
  then have split: "2 powr (log 2 \<bar>x\<bar> - 52) = \<bar>x\<bar> * 2 powr (- 52)"
    unfolding cancel by (simp only: diff_conv_add_uminus)
  have "double_ulp x = 2 powr (of_int \<lfloor>log 2 \<bar>x\<bar>\<rfloor> - 52)"
    unfolding double_ulp_def m ..
  also have "\<dots> \<le> 2 powr (log 2 \<bar>x\<bar> - 52)"
    by (intro powr_mono) simp_all
  also note split
  finally show ?thesis
    by (rule max.coboundedI1)
next
  case False
  then have "\<lfloor>log 2 \<bar>x\<bar>\<rfloor> \<le> - 1022"
    by linarith
  then have m: "max \<lfloor>log 2 \<bar>x\<bar>\<rfloor> (- 1022) = - 1022"
    by (rule max_absorb2)
  have "real_of_int (- 1022) - 52 \<le> - 100"
    by simp
  then have "(2 :: real) powr (real_of_int (- 1022) - 52) \<le> 2 powr (- 100)"
    by (intro powr_mono) simp_all
  then have "double_ulp x \<le> 2 powr (- 100)"
    unfolding double_ulp_def m .
  then show ?thesis
    by (rule max.coboundedI2)
qed

text \<open>Whole numbers below \<open>2\<^sup>5\<^sup>3\<close> are doubles.\<close>

lemma to_double_of_int:
  assumes "0 < n" and "n < 2 ^ 53"
  shows "to_double (of_int n) = of_int n"
proof -
  define k where "k = \<lfloor>log 2 (real_of_int n)\<rfloor>"
  from assms(1) have pos: "0 < real_of_int n" and one: "1 \<le> real_of_int n"
    by simp_all
  have "of_int k \<le> log 2 (real_of_int n)"
    unfolding k_def by simp
  with pos have lo: "2 powr of_int k \<le> real_of_int n"
    by (simp add: le_log_iff)
  have "log 2 (real_of_int n) < of_int k + 1"
    unfolding k_def by linarith
  with pos have hi: "real_of_int n < 2 powr (of_int k + 1)"
    by (simp add: log_less_iff)
  from one have "0 \<le> log 2 (real_of_int n)"
    by simp
  then have k0: "0 \<le> k"
    unfolding k_def by simp
  from assms(2) have "real_of_int n < 2 ^ 53"
    by (metis of_int_less_iff of_int_numeral of_int_power)
  then have "real_of_int n < 2 powr 53"
    by simp
  with pos have "log 2 (real_of_int n) < 53"
    by (simp add: log_less_iff)
  then have k52: "k \<le> 52"
    unfolding k_def by (simp add: floor_less_iff)
  define j where "j = nat (52 - k)"
  from k52 have "of_int k - 52 = - real j"
    by (simp add: j_def)
  then have "(2 :: real) powr (of_int k - 52) = 1 / 2 ^ j"
    by (simp add: powr_minus powr_realpow divide_inverse)
  then have shape: "real_of_int n = of_int (n * 2 ^ j) * 2 powr (of_int k - 52)"
    by simp
  from pos lo hi have "2 powr of_int k \<le> \<bar>real_of_int n\<bar>"
    and "\<bar>real_of_int n\<bar> < 2 powr (of_int k + 1)"
    by simp_all
  from to_double_exact [OF this _ shape] k0 show ?thesis
    by simp
qed

lemma to_double_small_numbers:
  "to_double 0 = 0" "to_double 1 = 1" "to_double 2 = 2" "to_double 50 = 50" "to_double 100 = 100"
  using to_double_of_int [of 1] to_double_of_int [of 2] to_double_of_int [of 50]
    to_double_of_int [of 100]
  by (simp_all add: to_double_def)

text \<open>A number between 1 and \<open>1 + 2\<^sup>-\<^sup>5\<^sup>3\<close> rounds to 1.\<close>

lemma to_double_just_above_one:
  assumes "0 \<le> e" and "e \<le> 2 powr (- 53)"
  shows "to_double (1 + e) = 1"
proof -
  have small: "2 powr (- 53) < (1 :: real)"
    by (simp add: powr_neg_numeral)
  with assms have "2 powr of_int 0 \<le> \<bar>1 + e\<bar>" and "\<bar>1 + e\<bar> < 2 powr (of_int 0 + 1)"
    by simp_all
  from double_ulp_at [OF this] have ulp: "double_ulp (1 + e) = 2 powr (- 52)"
    by simp
  have "(1 + e) / 2 powr (- 52) = of_int (2 ^ 52) + e * 2 ^ 52"
    by (simp add: powr_neg_numeral field_simps)
  moreover have "0 \<le> e * 2 ^ 52"
    using assms(1) by simp
  moreover have "e * 2 ^ 52 \<le> 1 / 2"
  proof -
    have "e * 2 ^ 52 \<le> 2 powr (- 53) * 2 ^ 52"
      using assms(2) by (intro mult_right_mono) simp_all
    also have "\<dots> = 1 / 2"
      by (simp add: powr_neg_numeral)
    finally show ?thesis .
  qed
  ultimately have "round_half_even ((1 + e) / 2 powr (- 52)) = 2 ^ 52"
    using round_half_even_just_above [of "e * 2 ^ 52" "2 ^ 52"] by simp
  moreover from assms(1) have "1 + e \<noteq> 0"
    by linarith
  ultimately show ?thesis
    by (simp add: to_double_def ulp powr_neg_numeral)
qed
lemma to_double_close: "\<bar>to_double x - x\<bar> \<le> (\<bar>x\<bar> + 1) / 9007199254740992"
proof (cases "x = 0")
  case True
  then show ?thesis
    by (simp add: to_double_def)
next
  case False
  have "(2 :: real) powr (- 100) \<le> 2 powr (- 52)"
    by (intro powr_mono) simp_all
  moreover have "(2 :: real) powr (- 52) \<le> (\<bar>x\<bar> + 1) * 2 powr (- 52)"
    by (simp add: mult_le_cancel_right1)
  ultimately have far: "(2 :: real) powr (- 100) \<le> (\<bar>x\<bar> + 1) * 2 powr (- 52)"
    by linarith
  have near: "\<bar>x\<bar> * 2 powr (- 52) \<le> (\<bar>x\<bar> + 1) * 2 powr (- 52)"
    by (intro mult_right_mono) simp_all
  from near far
  have "max (\<bar>x\<bar> * 2 powr (- 52)) (2 powr (- 100)) \<le> (\<bar>x\<bar> + 1) * 2 powr (- 52)"
    by (rule max.boundedI)
  with double_ulp_le [OF False] have "double_ulp x \<le> (\<bar>x\<bar> + 1) * 2 powr (- 52)"
    by linarith
  also have "\<dots> = (\<bar>x\<bar> + 1) / 2 ^ 52"
    by (simp add: powr_neg_numeral)
  finally have "double_ulp x / 2 \<le> (\<bar>x\<bar> + 1) / 9007199254740992"
    by simp
  with to_double_near [of x] show ?thesis
    by linarith
qed

lemma below_overflow:
  fixes y :: real
  assumes "\<bar>y\<bar> \<le> 2 ^ 53"
  shows "\<not> 2 powr 1024 \<le> \<bar>y\<bar>"
proof -
  have "(2 :: real) powr 53 < 2 powr 1024"
    by (intro powr_less_mono) simp_all
  moreover have "(2 :: real) powr 53 = 2 ^ 53"
    by simp
  ultimately show ?thesis
    using assms by linarith
qed

subsection \<open>The win percentage in doubles\<close>

text \<open>\<open>exp(-36.79)\<close> is below \<open>2\<^sup>-\<^sup>5\<^sup>3\<close>, with one per cent to spare.\<close>

lemma exp_sixteenth: "2.0004 \<le> exp (0.6941 :: real)"
proof -
  define t :: real where "t = 0.04338125"
  have q: "1 + t + t\<^sup>2 / 2 \<le> exp t"
    by (rule exp_lower_Taylor_quadratic) (simp add: t_def)
  have "(2.0004 :: real) \<le> (1 + t + t\<^sup>2 / 2) ^ 16"
    unfolding t_def by (simp add: power_divide power2_eq_square field_simps)
  also have "\<dots> \<le> exp t ^ 16"
    using q by (intro power_mono) (simp_all add: t_def)
  also have "\<dots> = exp (of_nat 16 * t)"
    by (simp only: exp_of_nat_mult)
  also have "\<dots> = exp 0.6941"
    by (simp add: t_def)
  finally show ?thesis .
qed

lemma exp_large: "1.01 * 2 ^ 53 \<le> exp (36.79 :: real)"
proof -
  have "(1.01 * 2 ^ 53 :: real) \<le> 2.0004 ^ 53"
    by (simp add: power_divide field_simps)
  also have "\<dots> \<le> exp 0.6941 ^ 53"
    using exp_sixteenth by (intro power_mono) simp_all
  also have "\<dots> = exp (of_nat 53 * 0.6941)"
    by (simp only: exp_of_nat_mult)
  also have "\<dots> \<le> exp 36.79"
    by simp
  finally show ?thesis .
qed

lemma exp_small:
  assumes "a \<le> - (36.79 :: real)"
  shows "exp a \<le> 1 / (1.01 * 2 ^ 53)"
proof -
  from assms have "exp a \<le> exp (- 36.79)"
    by (simp only: exp_le_cancel_iff)
  also have "\<dots> = 1 / exp 36.79"
    by (simp only: exp_minus inverse_eq_divide)
  also have "\<dots> \<le> 1 / (1.01 * 2 ^ 53)"
    using exp_large by (intro divide_left_mono) simp_all
  finally show ?thesis .
qed

text \<open>So its double is at most \<open>2\<^sup>-\<^sup>5\<^sup>3\<close>, and 1 plus that double is the double 1.\<close>

lemma to_double_tiny:
  assumes "0 < y" and "y \<le> 1 / (1.01 * 2 ^ 53)"
  shows "0 \<le> to_double y \<and> to_double y \<le> 2 powr (- 53)"
proof -
  from assms(1) have nz: "y \<noteq> 0"
    by simp
  have p53: "(2 :: real) powr (- 53) = 1 / 2 ^ 53" and p52: "(2 :: real) powr (- 52) = 1 / 2 ^ 52"
    by (simp_all add: powr_neg_numeral)
  have "(2 :: real) powr (- 100) \<le> 2 powr (- 60)"
    by (intro powr_mono) simp_all
  also have "\<dots> = 1 / 2 ^ 60"
    by (simp add: powr_neg_numeral)
  finally have far: "(2 :: real) powr (- 100) \<le> 1 / 2 ^ 60" .
  have "y \<le> 1 / 2 ^ 53"
  proof -
    have "(1 / (1.01 * 2 ^ 53) :: real) \<le> 1 / 2 ^ 53"
      by simp
    with assms(2) show ?thesis
      by linarith
  qed
  with assms(1) have "\<bar>y\<bar> * (1 / 2 ^ 52) \<le> 1 / 2 ^ 53 * (1 / 2 ^ 52)"
    by (intro mult_right_mono) simp_all
  also have "\<dots> \<le> (1 / 2 ^ 60 :: real)"
    by simp
  finally have "\<bar>y\<bar> * 2 powr (- 52) \<le> 1 / 2 ^ 60"
    unfolding p52 .
  from this far have "max (\<bar>y\<bar> * 2 powr (- 52)) (2 powr (- 100)) \<le> 1 / 2 ^ 60"
    by (rule max.boundedI)
  with double_ulp_le [OF nz] have "double_ulp y \<le> 1 / 2 ^ 60"
    by linarith
  then have "double_ulp y / 2 \<le> 1 / 2 ^ 61"
    by simp
  with to_double_near [of y] have "to_double y \<le> y + 1 / 2 ^ 61"
    by linarith
  also from assms(2) have "\<dots> \<le> 1 / (1.01 * 2 ^ 53) + 1 / 2 ^ 61"
    by simp
  also have "\<dots> \<le> 1 / 2 ^ 53"
    by simp
  finally have "to_double y \<le> 2 powr (- 53)"
    unfolding p53 .
  moreover from assms(1) have "0 \<le> to_double y"
    by (intro to_double_nonneg) simp
  ultimately show ?thesis
    by simp
qed

lemma literal_double: "0.00368 \<le> to_double 0.00368208"
proof -
  from to_double_close [of "0.00368208"]
  have "0.00368208 - (\<bar>0.00368208\<bar> + 1) / 9007199254740992 \<le> to_double 0.00368208"
    by linarith
  moreover have "(0.00368 :: real) \<le> 0.00368208 - (\<bar>0.00368208\<bar> + 1) / 9007199254740992"
    by simp
  ultimately show ?thesis
    by linarith
qed

lemma exponent_far_down:
  assumes "10000 \<le> cp"
  shows "to_double (- to_double 0.00368208 * real_of_int cp) \<le> - 36.79"
proof -
  define x where "x = - to_double 0.00368208 * real_of_int cp"
  from assms have "(10000 :: real) \<le> real_of_int cp"
    by simp
  with literal_double have "0.00368 * 10000 \<le> to_double 0.00368208 * real_of_int cp"
    by (intro mult_mono) simp_all
  then have x: "x \<le> - 36.8"
    by (simp add: x_def)
  then have "\<bar>x\<bar> = - x"
    by simp
  from to_double_close [of x] have "to_double x - x \<le> (\<bar>x\<bar> + 1) / 9007199254740992"
    by (rule abs_le_D1)
  then have "to_double x - x \<le> (- x + 1) / 9007199254740992"
    by (simp only: \<open>\<bar>x\<bar> = - x\<close>)
  then have "to_double x \<le> x + (- x + 1) / 9007199254740992"
    by linarith
  also have "\<dots> = x * (1 - 1 / 9007199254740992) + 1 / 9007199254740992"
    by (simp add: field_simps)
  also have "\<dots> \<le> - 36.8 * (1 - 1 / 9007199254740992) + 1 / 9007199254740992"
    using x by (intro add_right_mono mult_right_mono) simp_all
  also have "\<dots> \<le> - 36.79"
    by simp
  finally show ?thesis
    unfolding x_def .
qed

lemma win_percent_double_at_zero: "centipawns_to_win_percent_double 0 = Inr 50"
proof -
  have "\<not> 2 powr 1024 \<le> \<bar>0 :: real\<bar>" and "\<not> 2 powr 1024 \<le> (1 :: real)"
    using below_overflow [of 0] below_overflow [of 1] by simp_all
  then show ?thesis
    by (simp add: centipawns_to_win_percent_double_def int_to_double_def double_exp_def
        to_double_small_numbers)
qed

lemma win_percent_double_saturated:
  assumes "10000 \<le> cp" and "cp < 2 ^ 53"
  shows "centipawns_to_win_percent_double cp = Inr 100"
proof -
  from assms have pos: "0 < cp"
    by simp
  from to_double_of_int [OF pos assms(2)]
  have c: "to_double (real_of_int cp) = real_of_int cp" .
  from assms(2) have "real_of_int cp < 2 ^ 53"
    by (metis of_int_less_iff of_int_numeral of_int_power)
  with pos have "\<bar>real_of_int cp\<bar> \<le> 2 ^ 53"
    by simp
  from below_overflow [OF this] c
  have conv: "int_to_double cp = Inr (real_of_int cp)"
    by (simp add: int_to_double_def)
  define a where "a = to_double (- to_double 0.00368208 * real_of_int cp)"
  have "a \<le> - 36.79"
    unfolding a_def using assms(1) by (rule exponent_far_down)
  from exp_small [OF this] to_double_tiny [of "exp a"]
  have tiny: "0 \<le> to_double (exp a)" "to_double (exp a) \<le> 2 powr (- 53)"
    by simp_all
  have "(2 :: real) powr (- 53) \<le> 2 ^ 53"
    by (simp add: powr_neg_numeral)
  with tiny have "\<bar>to_double (exp a)\<bar> \<le> 2 ^ 53"
    by simp
  from below_overflow [OF this] tiny(1)
  have e: "double_exp a = Inr (to_double (exp a))"
    by (simp add: double_exp_def)
  from to_double_just_above_one [OF tiny]
  have one: "to_double (1 + to_double (exp a)) = 1" .
  show ?thesis
    unfolding centipawns_to_win_percent_double_def conv sum.case a_def [symmetric] e one
    by (simp add: to_double_small_numbers)
qed
text \<open>
  C8, as the code has it.  At 0 the win percentage is 50, in exact arithmetic and in
  doubles alike.  In exact arithmetic the curve is strictly increasing and lies strictly
  between 0 and 100.  In doubles it does neither: from 10000 centipawns on (the value of
  a mate given) and for every whole number of centipawns that is a double, \<open>exp\<close> of the
  exponent is below half a unit in the last place of 1, the sum \<open>1 + exp(...)\<close> is the
  double 1, and the result is the double 100.
\<close>

theorem win_percent_exact_and_in_doubles:
  "centipawns_to_win_percent 0 = 50
   \<and> centipawns_to_win_percent_double 0 = Inr 50
   \<and> (\<forall>a b. a < b \<longrightarrow> centipawns_to_win_percent a < centipawns_to_win_percent b)
   \<and> (\<forall>c. 0 < centipawns_to_win_percent c \<and> centipawns_to_win_percent c < 100)
   \<and> (\<forall>c. 10000 \<le> c \<and> c < 2 ^ 53 \<longrightarrow> centipawns_to_win_percent_double c = Inr 100)"
  using win_percent_at_zero win_percent_double_at_zero win_percent_strictly_increasing
    win_percent_bounds win_percent_double_saturated
  by blast

theorem win_percent_exact_and_in_doubles_witness:
  "centipawns_to_win_percent 0 < centipawns_to_win_percent 1
   \<and> centipawns_to_win_percent_double 12345 = Inr 100"
proof -
  from win_percent_exact_and_in_doubles
  have mono: "\<forall>a b. a < b \<longrightarrow> centipawns_to_win_percent a < centipawns_to_win_percent b"
    and flat: "\<forall>c. 10000 \<le> c \<and> c < 2 ^ 53 \<longrightarrow> centipawns_to_win_percent_double c = Inr 100"
    by blast+
  from mono have "centipawns_to_win_percent 0 < centipawns_to_win_percent 1"
    by simp
  moreover from flat have "centipawns_to_win_percent_double 12345 = Inr 100"
    by simp
  ultimately show ?thesis
    by simp
qed

text \<open>The claim as written fails for the function the code computes: at 10000 centipawns
  its value is 100, not below it, and at 10001 it is 100 again, not more.\<close>

theorem win_percent_double_reaches_100:
  "centipawns_to_win_percent_double 10000 = Inr 100
   \<and> centipawns_to_win_percent_double 10001 = Inr 100"
  using win_percent_double_saturated [of 10000] win_percent_double_saturated [of 10001]
  by simp

subsection \<open>One move\<close>

text \<open>
  C5.  For a move that is not a book move, with the engine answering before and after
  it: the loss is \<open>eval_before - eval_after\<close> for White and \<open>eval_after - eval_before\<close>
  for Black, never below 0; it is classified with inclusive upper bounds 10, 25, 50 and
  100, the first match winning; and the new state differs from the old one (besides move
  number, board and engine) in exactly the mover's counter of that class, one higher, and
  the mover's list of pairs, one longer by \<open>(eval_before, eval_after)\<close>, negated for
  Black.
\<close>

theorem analyse_move_outside_book:
  assumes "in_book rd (board st) mv = Inr False"
    and "analyse w (engine st) (board st) = (Inr info_before, eng_mid)"
    and "analyse w eng_mid (push w (board st) mv) = (Inr info_after, eng_end)"
    and "get_eval_centipawns info_before = Some eval_before"
    and "eval_after = score_with_mate_score 10000 info_after"
    and "is_white_move \<longleftrightarrow> (move_number st + 1) mod 2 = 1"
    and "eval_loss =
           max 0 (if is_white_move then eval_before - eval_after else eval_after - eval_before)"
    and "(if is_white_move then white_classifications st else black_classifications st)
           (classify_move eval_loss) = Some k"
  shows "0 \<le> eval_loss
       \<and> classify_move eval_loss =
           (if eval_loss \<le> 10 then ''best'' else if eval_loss \<le> 25 then ''good''
            else if eval_loss \<le> 50 then ''inaccuracy''
            else if eval_loss \<le> 100 then ''mistake'' else ''blunder'')
       \<and> classify_move 10 = ''best'' \<and> classify_move 11 = ''good''
       \<and> classify_move 25 = ''good'' \<and> classify_move 26 = ''inaccuracy''
       \<and> classify_move 50 = ''inaccuracy'' \<and> classify_move 51 = ''mistake''
       \<and> classify_move 100 = ''mistake'' \<and> classify_move 101 = ''blunder''
       \<and> analyse_move w rd st mv =
           Inr (if is_white_move
                then st\<lparr>move_number := move_number st + 1, board := push w (board st) mv,
                        engine := eng_end,
                        white_eval_pairs := white_eval_pairs st @ [(eval_before, eval_after)],
                        white_classifications :=
                          (white_classifications st)(classify_move eval_loss \<mapsto> k + 1)\<rparr>
                else st\<lparr>move_number := move_number st + 1, board := push w (board st) mv,
                        engine := eng_end,
                        black_eval_pairs := black_eval_pairs st @ [(- eval_before, - eval_after)],
                        black_classifications :=
                          (black_classifications st)(classify_move eval_loss \<mapsto> k + 1)\<rparr>)"
proof -
  have nonneg: "0 \<le> eval_loss"
    using assms(7) by simp
  have table: "classify_move eval_loss =
           (if eval_loss \<le> 10 then ''best'' else if eval_loss \<le> 25 then ''good''
            else if eval_loss \<le> 50 then ''inaccuracy''
            else if eval_loss \<le> 100 then ''mistake'' else ''blunder'')"
    by (simp only: classify_move_def)
  have examples: "classify_move 10 = ''best'' \<and> classify_move 11 = ''good''
       \<and> classify_move 25 = ''good'' \<and> classify_move 26 = ''inaccuracy''
       \<and> classify_move 50 = ''inaccuracy'' \<and> classify_move 51 = ''mistake''
       \<and> classify_move 100 = ''mistake'' \<and> classify_move 101 = ''blunder''"
    by (simp add: classify_move_def)
  have step: "analyse_move w rd st mv =
           Inr (if is_white_move
                then st\<lparr>move_number := move_number st + 1, board := push w (board st) mv,
                        engine := eng_end,
                        white_eval_pairs := white_eval_pairs st @ [(eval_before, eval_after)],
                        white_classifications :=
                          (white_classifications st)(classify_move eval_loss \<mapsto> k + 1)\<rparr>
                else st\<lparr>move_number := move_number st + 1, board := push w (board st) mv,
                        engine := eng_end,
                        black_eval_pairs := black_eval_pairs st @ [(- eval_before, - eval_after)],
                        black_classifications :=
                          (black_classifications st)(classify_move eval_loss \<mapsto> k + 1)\<rparr>)"
  proof (cases is_white_move)
    case True
    with assms show ?thesis
      by (simp add: analyse_move_def Let_def dict_incr_def)
  next
    case False
    with assms show ?thesis
      by (simp add: analyse_move_def Let_def dict_incr_def)
  qed
  from nonneg table examples step show ?thesis
    by (intro conjI) simp_all
qed

theorem analyse_move_outside_book_witness:
  "in_book None (board (initial_state [] [Cp 20, Cp 15] :: (nat list, score list) loop_state)) (0 :: nat)
     = Inr False
   \<and> get_eval_centipawns (Cp 20) = Some 20
   \<and> classify_move (max 0 (20 - 15)) = ''best''
   \<and> zero_classifications ''best'' = Some 0
   \<and> analyse_move (scripted_world (Inr None) []) None (initial_state [] [Cp 20, Cp 15]) 0 =
       Inr \<lparr>white_classifications = zero_classifications(''best'' \<mapsto> 1),
            black_classifications = zero_classifications,
            white_eval_pairs = [(20, 15)], black_eval_pairs = [],
            white_book_moves_var = 0, black_book_moves_var = 0,
            board = [0], move_number = 1, engine = []\<rparr>"
  using analyse_move_outside_book
    [where rd = None and st = "initial_state [] [Cp 20, Cp 15]" and mv = "0 :: nat"
       and w = "scripted_world (Inr None) []" and info_before = "Cp 20" and eng_mid = "[Cp 15]"
       and info_after = "Cp 15" and eng_end = "[]" and eval_before = 20 and eval_after = 15
       and is_white_move = True and eval_loss = 5 and k = 0]
  by (simp add: in_book_def initial_state_def scripted_world_def scripted_engine_def
      get_eval_centipawns_def zero_classifications_def classify_move_def)

subsection \<open>The counters of one game\<close>

lemma classify_move_cases:
  "classify_move l \<in> {''best'', ''good'', ''inaccuracy'', ''mistake'', ''blunder''}"
  by (simp add: classify_move_def)

lemma counted_zero: "counted zero_classifications 0"
  by (simp add: counted_def read_counts_def dict_index_def zero_classifications_def)

lemma counted_incr:
  assumes "counted d n"
  shows "\<exists>d'. dict_incr d (classify_move l) = Inr d' \<and> counted d' (n + 1)"
proof -
  from assms obtain b g i m bl where
    keys: "d ''best'' = Some b" "d ''good'' = Some g" "d ''inaccuracy'' = Some i"
      "d ''mistake'' = Some m" "d ''blunder'' = Some bl"
    and total: "b + g + i + m + bl = n"
    by (auto simp: counted_def read_counts_def dict_index_def split: option.splits sum.splits)
  consider "classify_move l = ''best''" | "classify_move l = ''good''"
    | "classify_move l = ''inaccuracy''" | "classify_move l = ''mistake''"
    | "classify_move l = ''blunder''"
    using classify_move_cases [of l] by auto
  then show ?thesis
  proof cases
    case 1
    with keys total show ?thesis
      by (simp add: dict_incr_def counted_def read_counts_def dict_index_def)
  next
    case 2
    with keys total show ?thesis
      by (simp add: dict_incr_def counted_def read_counts_def dict_index_def)
  next
    case 3
    with keys total show ?thesis
      by (simp add: dict_incr_def counted_def read_counts_def dict_index_def)
  next
    case 4
    with keys total show ?thesis
      by (simp add: dict_incr_def counted_def read_counts_def dict_index_def)
  next
    case 5
    with keys total show ?thesis
      by (simp add: dict_incr_def counted_def read_counts_def dict_index_def)
  qed
qed

lemma tallies_agree_initial: "tallies_agree (initial_state b eng)"
  by (simp add: tallies_agree_def initial_state_def counted_zero)

lemma half_steps:
  fixes n :: int
  assumes "0 \<le> n"
  shows "(n + 1) mod 2 = 1 \<Longrightarrow> (n + 1 + 1) div 2 = (n + 1) div 2 + 1 \<and> (n + 1) div 2 = n div 2"
    and "(n + 1) mod 2 \<noteq> 1 \<Longrightarrow> (n + 1 + 1) div 2 = (n + 1) div 2 \<and> (n + 1) div 2 = n div 2 + 1"
  using assms by presburger+

text \<open>The two ways in which the loop body ends without an exception.\<close>

lemma analyse_move_Inr_cases:
  assumes step: "analyse_move w rd st mv = Inr st'"
  obtains
    (book) "in_book rd (board st) mv = Inr True"
      "st' = (if (move_number st + 1) mod 2 = 1
              then st\<lparr>move_number := move_number st + 1,
                      white_book_moves_var := white_book_moves_var st + 1\<rparr>
              else st\<lparr>move_number := move_number st + 1,
                      black_book_moves_var := black_book_moves_var st + 1\<rparr>)
               \<lparr>board := push w (board st) mv\<rparr>"
  | (white) info_before info_after eng_end eb d where
      "in_book rd (board st) mv = Inr False"
      "(move_number st + 1) mod 2 = 1"
      "get_eval_centipawns info_before = Some eb"
      "dict_incr (white_classifications st)
         (classify_move (max 0 (eb - score_with_mate_score 10000 info_after))) = Inr d"
      "st' = st\<lparr>move_number := move_number st + 1, board := push w (board st) mv,
                engine := eng_end,
                white_eval_pairs :=
                  white_eval_pairs st @ [(eb, score_with_mate_score 10000 info_after)],
                white_classifications := d\<rparr>"
  | (black) info_before info_after eng_end eb d where
      "in_book rd (board st) mv = Inr False"
      "(move_number st + 1) mod 2 \<noteq> 1"
      "get_eval_centipawns info_before = Some eb"
      "dict_incr (black_classifications st)
         (classify_move (max 0 (score_with_mate_score 10000 info_after - eb))) = Inr d"
      "st' = st\<lparr>move_number := move_number st + 1, board := push w (board st) mv,
                engine := eng_end,
                black_eval_pairs :=
                  black_eval_pairs st @ [(- eb, - score_with_mate_score 10000 info_after)],
                black_classifications := d\<rparr>"
proof (cases "in_book rd (board st) mv")
  case (Inl e)
  with step show ?thesis
    by (simp add: analyse_move_def Let_def)
next
  case (Inr found)
  show ?thesis
  proof (cases found)
    case True
    with Inr step show ?thesis
      by (intro book) (simp_all add: analyse_move_def Let_def)
  next
    case False
    obtain r1 eng_mid where a1: "analyse w (engine st) (board st) = (r1, eng_mid)"
      by (cases "analyse w (engine st) (board st)")
    show ?thesis
    proof (cases r1)
      case (Inl e)
      with Inr False a1 step show ?thesis
        by (simp add: analyse_move_def Let_def)
    next
      case info_before: (Inr info_before)
      obtain r2 eng_end where
        a2: "analyse w eng_mid (push w (board st) mv) = (r2, eng_end)"
        by (cases "analyse w eng_mid (push w (board st) mv)")
      show ?thesis
      proof (cases r2)
        case (Inl e)
        with Inr False a1 info_before a2 step show ?thesis
          by (simp add: analyse_move_def Let_def)
      next
        case info_after: (Inr info_after)
        from get_eval_centipawns_total obtain eb where
          eb: "get_eval_centipawns info_before = Some eb"
          by blast
        show ?thesis
        proof (cases "(move_number st + 1) mod 2 = 1")
          case True
          show ?thesis
          proof (cases "dict_incr (white_classifications st)
              (classify_move (max 0 (eb - score_with_mate_score 10000 info_after)))")
            case (Inl e)
            with Inr False a1 info_before a2 info_after eb True step show ?thesis
              by (simp add: analyse_move_def Let_def)
          next
            case d: (Inr d)
            with Inr False a1 info_before a2 info_after eb True step
            have "st' = st\<lparr>move_number := move_number st + 1, board := push w (board st) mv,
                engine := eng_end,
                white_eval_pairs :=
                  white_eval_pairs st @ [(eb, score_with_mate_score 10000 info_after)],
                white_classifications := d\<rparr>"
              by (simp add: analyse_move_def Let_def)
            with Inr False True eb d show ?thesis
              by (intro white) simp_all
          qed
        next
          case odd: False
          show ?thesis
          proof (cases "dict_incr (black_classifications st)
              (classify_move (max 0 (score_with_mate_score 10000 info_after - eb)))")
            case (Inl e)
            with Inr False a1 info_before a2 info_after eb odd step show ?thesis
              by (simp add: analyse_move_def Let_def)
          next
            case d: (Inr d)
            with Inr False a1 info_before a2 info_after eb odd step
            have "st' = st\<lparr>move_number := move_number st + 1, board := push w (board st) mv,
                engine := eng_end,
                black_eval_pairs :=
                  black_eval_pairs st @ [(- eb, - score_with_mate_score 10000 info_after)],
                black_classifications := d\<rparr>"
              by (simp add: analyse_move_def Let_def)
            with Inr False odd eb d show ?thesis
              by (intro black) simp_all
          qed
        qed
      qed
    qed
  qed
qed
lemma analyse_move_keeps_tallies:
  assumes inv: "tallies_agree st"
    and step: "analyse_move w rd st mv = Inr st'"
  shows "tallies_agree st' \<and> move_number st' = move_number st + 1"
proof -
  from inv have nonneg: "0 \<le> move_number st"
    and wc: "counted (white_classifications st) (int (length (white_eval_pairs st)))"
    and bc: "counted (black_classifications st) (int (length (black_eval_pairs st)))"
    and wplies: "int (length (white_eval_pairs st)) + white_book_moves_var st
                   = (move_number st + 1) div 2"
    and bplies: "int (length (black_eval_pairs st)) + black_book_moves_var st
                   = move_number st div 2"
    by (simp_all add: tallies_agree_def)
  note halves = half_steps [OF nonneg]
  from step show ?thesis
  proof (cases rule: analyse_move_Inr_cases)
    case book
    show ?thesis
    proof (cases "(move_number st + 1) mod 2 = 1")
      case True
      with book(2) have st': "st' = st\<lparr>move_number := move_number st + 1,
          white_book_moves_var := white_book_moves_var st + 1,
          board := push w (board st) mv\<rparr>"
        by simp
      from halves(1) [OF True] wplies bplies
      have "int (length (white_eval_pairs st)) + (white_book_moves_var st + 1)
              = (move_number st + 1 + 1) div 2"
        and "int (length (black_eval_pairs st)) + black_book_moves_var st
              = (move_number st + 1) div 2"
        by linarith+
      with wc bc nonneg show ?thesis
        unfolding tallies_agree_def st' by simp
    next
      case False
      with book(2) have st': "st' = st\<lparr>move_number := move_number st + 1,
          black_book_moves_var := black_book_moves_var st + 1,
          board := push w (board st) mv\<rparr>"
        by simp
      from halves(2) [OF False] wplies bplies
      have "int (length (white_eval_pairs st)) + white_book_moves_var st
              = (move_number st + 1 + 1) div 2"
        and "int (length (black_eval_pairs st)) + (black_book_moves_var st + 1)
              = (move_number st + 1) div 2"
        by linarith+
      with wc bc nonneg show ?thesis
        unfolding tallies_agree_def st' by simp
    qed
  next
    case (white info_before info_after eng_end eb d)
    from counted_incr [OF wc, of "max 0 (eb - score_with_mate_score 10000 info_after)"] white(4)
    have cd: "counted d (int (length (white_eval_pairs st)) + 1)"
      by auto
    from halves(1) [OF white(2)] wplies bplies
    have "int (length (white_eval_pairs st)) + 1 + white_book_moves_var st
            = (move_number st + 1 + 1) div 2"
      and "int (length (black_eval_pairs st)) + black_book_moves_var st
            = (move_number st + 1) div 2"
      by linarith+
    with cd bc nonneg show ?thesis
      unfolding tallies_agree_def white(5) by (simp add: add.commute)
  next
    case (black info_before info_after eng_end eb d)
    from counted_incr [OF bc, of "max 0 (score_with_mate_score 10000 info_after - eb)"] black(4)
    have cd: "counted d (int (length (black_eval_pairs st)) + 1)"
      by auto
    from halves(2) [OF black(2)] wplies bplies
    have "int (length (white_eval_pairs st)) + white_book_moves_var st
            = (move_number st + 1 + 1) div 2"
      and "int (length (black_eval_pairs st)) + 1 + black_book_moves_var st
            = (move_number st + 1) div 2"
      by linarith+
    with cd wc nonneg show ?thesis
      unfolding tallies_agree_def black(5) by (simp add: add.commute)
  qed
qed
lemma move_loop_keeps_tallies:
  "tallies_agree st \<Longrightarrow> move_loop w rd st mvs = Inr st' \<Longrightarrow>
     tallies_agree st' \<and> move_number st' = move_number st + int (length mvs)"
proof (induction mvs arbitrary: st)
  case Nil
  then show ?case by simp
next
  case (Cons mv mvs)
  from Cons.prems(2) obtain st1 where
    first: "analyse_move w rd st mv = Inr st1" and rest: "move_loop w rd st1 mvs = Inr st'"
    by (auto split: sum.splits)
  from analyse_move_keeps_tallies [OF Cons.prems(1) first]
  have "tallies_agree st1" and "move_number st1 = move_number st + 1"
    by simp_all
  with Cons.IH [OF _ rest] show ?case
    by simp
qed

lemma build_stats_sums:
  assumes "tallies_agree st"
  shows "\<exists>gs. build_stats name wp bp we be tc op res st = Inr gs
       \<and> filename gs = name \<and> white_elo gs = we \<and> black_elo gs = be
       \<and> white_best_moves gs + white_good_moves gs + white_inaccuracies gs
           + white_mistakes gs + white_blunders gs + white_book_moves gs = white_total_moves gs
       \<and> black_best_moves gs + black_good_moves gs + black_inaccuracies gs
           + black_mistakes gs + black_blunders gs + black_book_moves gs = black_total_moves gs
       \<and> white_total_moves gs = (move_number st + 1) div 2
       \<and> black_total_moves gs = move_number st div 2"
  using assms
  by (auto simp: tallies_agree_def counted_def build_stats_def Let_def split: sum.splits)

lemma placeholder_sums:
  "white_best_moves (placeholder n) + white_good_moves (placeholder n)
     + white_inaccuracies (placeholder n) + white_mistakes (placeholder n)
     + white_blunders (placeholder n) + white_book_moves (placeholder n)
     = white_total_moves (placeholder n)
   \<and> black_best_moves (placeholder n) + black_good_moves (placeholder n)
     + black_inaccuracies (placeholder n) + black_mistakes (placeholder n)
     + black_blunders (placeholder n) + black_book_moves (placeholder n)
     = black_total_moves (placeholder n)
   \<and> filename (placeholder n) = n"
  by (simp add: placeholder_def)

text \<open>What the body of the \<open>try\<close> returns, when it returns: the placeholder for a file
  without a game, and otherwise the record built from the state the loop ended in.\<close>

lemma analyse_game_try_returns:
  assumes "snd (analyse_game_try w name) = Inr gs"
  shows "(read_game w = Inr None \<and> gs = placeholder name)
       \<or> (\<exists>g rd eng st we be tc.
            read_game w = Inr (Some g)
            \<and> parse_elos (headers g) = Inr (we, be)
            \<and> popen_uci w = Inr eng
            \<and> move_loop w rd (initial_state (start_board g) eng) (mainline_moves g) = Inr st
            \<and> build_stats name (dict_get (headers g) ''White'' ''unknown'')
                 (dict_get (headers g) ''Black'' ''unknown'') we be tc
                 (dict_get (headers g) ''ECO'' ''unknown'')
                 (parse_result (dict_get (headers g) ''Result'' ''*'')) st = Inr gs)"
  using assms
  by (auto simp: analyse_game_try_def Let_def
      split: sum.splits option.splits prod.splits if_splits)

lemma build_stats_result:
  assumes "tallies_agree st"
    and "build_stats name wp bp we be tc op res st = Inr gs"
  shows "filename gs = name \<and> white_elo gs = we \<and> black_elo gs = be
       \<and> white_best_moves gs + white_good_moves gs + white_inaccuracies gs
           + white_mistakes gs + white_blunders gs + white_book_moves gs = white_total_moves gs
       \<and> black_best_moves gs + black_good_moves gs + black_inaccuracies gs
           + black_mistakes gs + black_blunders gs + black_book_moves gs = black_total_moves gs
       \<and> white_total_moves gs = (move_number st + 1) div 2
       \<and> black_total_moves gs = move_number st div 2"
  using build_stats_sums [OF assms(1), of name wp bp we be tc op res] assms(2)
  by auto

lemma move_loop_from_start:
  assumes "move_loop w rd (initial_state b eng) mvs = Inr st"
  shows "tallies_agree st \<and> move_number st = int (length mvs)"
  using move_loop_keeps_tallies [OF tallies_agree_initial assms]
  by (simp add: initial_state_def)

text \<open>
  C6.  When the body of \<open>analyse_game\<close> returns a record, then for each colour the five
  classification counts and the book count add up to \<open>total_moves\<close>; and when the file
  held a game, \<open>total_moves\<close> is the number of plies of that colour in the game (White
  moves first), each ply having gone either to the book counter or to one classification
  counter together with one stored pair.
\<close>

theorem counts_add_up_to_total_moves:
  assumes "snd (analyse_game_try w name) = Inr gs"
  shows "white_best_moves gs + white_good_moves gs + white_inaccuracies gs
           + white_mistakes gs + white_blunders gs + white_book_moves gs = white_total_moves gs
       \<and> black_best_moves gs + black_good_moves gs + black_inaccuracies gs
           + black_mistakes gs + black_blunders gs + black_book_moves gs = black_total_moves gs
       \<and> (\<forall>g. read_game w = Inr (Some g) \<longrightarrow>
             white_total_moves gs = (int (length (mainline_moves g)) + 1) div 2
           \<and> black_total_moves gs = int (length (mainline_moves g)) div 2)"
proof -
  from analyse_game_try_returns [OF assms]
  consider (no_game) "read_game w = Inr None" "gs = placeholder name"
    | (game) g rd eng st we be tc where
        "read_game w = Inr (Some g)"
        "move_loop w rd (initial_state (start_board g) eng) (mainline_moves g) = Inr st"
        "build_stats name (dict_get (headers g) ''White'' ''unknown'')
           (dict_get (headers g) ''Black'' ''unknown'') we be tc
           (dict_get (headers g) ''ECO'' ''unknown'')
           (parse_result (dict_get (headers g) ''Result'' ''*'')) st = Inr gs"
    by blast
  then show ?thesis
  proof cases
    case no_game
    then show ?thesis
      using placeholder_sums [of name] by simp
  next
    case game
    from move_loop_from_start [OF game(2)]
    have inv: "tallies_agree st" and plies: "move_number st = int (length (mainline_moves g))"
      by simp_all
    from build_stats_result [OF inv game(3)] plies
    have "white_best_moves gs + white_good_moves gs + white_inaccuracies gs
           + white_mistakes gs + white_blunders gs + white_book_moves gs = white_total_moves gs"
      and "black_best_moves gs + black_good_moves gs + black_inaccuracies gs
           + black_mistakes gs + black_blunders gs + black_book_moves gs = black_total_moves gs"
      and "white_total_moves gs = (int (length (mainline_moves g)) + 1) div 2"
      and "black_total_moves gs = int (length (mainline_moves g)) div 2"
      by simp_all
    with game(1) show ?thesis
      by simp
  qed
qed

theorem counts_add_up_to_total_moves_witness:
  "snd (analyse_game_try
          (scripted_world (Inr (Some (game_of Map.empty [0, 1]))) [Cp 20, Cp 15, Cp 15, Cp 130])
          ''g.pgn'')
     = Inr (snd (analyse_game
          (scripted_world (Inr (Some (game_of Map.empty [0, 1]))) [Cp 20, Cp 15, Cp 15, Cp 130])
          ''g.pgn''))
   \<and> white_total_moves (snd (analyse_game
          (scripted_world (Inr (Some (game_of Map.empty [0, 1]))) [Cp 20, Cp 15, Cp 15, Cp 130])
          ''g.pgn'')) = 1
   \<and> black_total_moves (snd (analyse_game
          (scripted_world (Inr (Some (game_of Map.empty [0, 1]))) [Cp 20, Cp 15, Cp 15, Cp 130])
          ''g.pgn'')) = 1
   \<and> white_best_moves (snd (analyse_game
          (scripted_world (Inr (Some (game_of Map.empty [0, 1]))) [Cp 20, Cp 15, Cp 15, Cp 130])
          ''g.pgn'')) = 1
   \<and> black_blunders (snd (analyse_game
          (scripted_world (Inr (Some (game_of Map.empty [0, 1]))) [Cp 20, Cp 15, Cp 15, Cp 130])
          ''g.pgn'')) = 1"
  using counts_add_up_to_total_moves
    [of "scripted_world (Inr (Some (game_of Map.empty [0, 1]))) [Cp 20, Cp 15, Cp 15, Cp 130]"
        "''g.pgn''"
        "snd (analyse_game
          (scripted_world (Inr (Some (game_of Map.empty [0, 1]))) [Cp 20, Cp 15, Cp 15, Cp 130])
          ''g.pgn'')"]
  by (simp add: analyse_game_def analyse_game_try_def scripted_world_def scripted_engine_def
      game_of_def parse_elos_def classify_time_control_def dict_get_def py_int_def py_strip_def
      py_isspace_def is_digit_def digits_value_def initial_state_def zero_classifications_def
      analyse_move_def in_book_def get_eval_centipawns_def classify_move_def dict_incr_def
      build_stats_def read_counts_def dict_index_def Let_def)

subsection \<open>Failures inside one game\<close>

lemma analyse_game_try_filename:
  assumes "snd (analyse_game_try w name) = Inr gs"
  shows "filename gs = name"
proof -
  from analyse_game_try_returns [OF assms]
  consider (no_game) "read_game w = Inr None" "gs = placeholder name"
    | (game) g rd eng st we be tc where
        "read_game w = Inr (Some g)"
        "move_loop w rd (initial_state (start_board g) eng) (mainline_moves g) = Inr st"
        "build_stats name (dict_get (headers g) ''White'' ''unknown'')
           (dict_get (headers g) ''Black'' ''unknown'') we be tc
           (dict_get (headers g) ''ECO'' ''unknown'')
           (parse_result (dict_get (headers g) ''Result'' ''*'')) st = Inr gs"
    by blast
  then show ?thesis
  proof cases
    case no_game
    then show ?thesis
      by (simp add: placeholder_def)
  next
    case game
    from move_loop_from_start [OF game(2)] have "tallies_agree st"
      by simp
    from build_stats_result [OF this game(3)] show ?thesis
      by simp
  qed
qed

lemma analyse_game_filename: "filename (snd (analyse_game w name)) = name"
proof (cases "snd (analyse_game_try w name)")
  case (Inl e)
  then show ?thesis
    by (cases "analyse_game_try w name") (simp add: analyse_game_def placeholder_def)
next
  case (Inr gs)
  with analyse_game_try_filename [OF Inr] show ?thesis
    by (cases "analyse_game_try w name") (simp add: analyse_game_def)
qed

subsection \<open>Stopping the engine\<close>

text \<open>
  C3.  \<open>engine.quit()\<close> stands only at the end of the loop's normal exit.  A game of one
  move with an engine that starts and then fails at the first \<open>analyse\<close> call: the engine
  is started, the error is reported, and no quit happens.  The same game with an engine
  that answers twice: started, then quit once.
\<close>

theorem engine_left_running_on_failure:
  "fst (analyse_game (scripted_world (Inr (Some (game_of Map.empty [0]))) []) ''g.pgn'')
     = [EngineStarted, ErrorReported EngineError]
   \<and> EngineQuit \<notin> set (fst (analyse_game
         (scripted_world (Inr (Some (game_of Map.empty [0]))) []) ''g.pgn''))
   \<and> fst (analyse_game (scripted_world (Inr (Some (game_of Map.empty [0]))) [Cp 20, Cp 15])
         ''g.pgn'')
     = [EngineStarted, EngineQuit]"
  by (simp add: analyse_game_def analyse_game_try_def scripted_world_def scripted_engine_def
      game_of_def parse_elos_def classify_time_control_def dict_get_def py_int_def py_strip_def
      py_isspace_def is_digit_def digits_value_def initial_state_def zero_classifications_def
      analyse_move_def in_book_def get_eval_centipawns_def classify_move_def dict_incr_def
      build_stats_def read_counts_def dict_index_def Let_def)

subsection \<open>Ratings\<close>

text \<open>
  C9, as the code has it.  The two rating headers are converted in one \<open>try\<close>: when both
  are integer literals the two values are kept, and when either is not, both ratings are
  0; no exception leaves the conversion.  So \<open>?\<close> for White gives 0 for White, and it
  gives 0 for Black too, whatever Black's header is.
\<close>

theorem ratings_default_together:
  "parse_elos h =
     Inr (case (py_int (dict_get h ''WhiteElo'' ''0''), py_int (dict_get h ''BlackElo'' ''0'')) of
            (Inr we, Inr be) \<Rightarrow> (we, be)
          | _ \<Rightarrow> (0, 0))
   \<and> parse_elos [''WhiteElo'' \<mapsto> ''?'', ''BlackElo'' \<mapsto> ''1500''] = Inr (0, 0)
   \<and> parse_elos [''WhiteElo'' \<mapsto> ''1480'', ''BlackElo'' \<mapsto> ''1500''] = Inr (1480, 1500)
   \<and> parse_elos Map.empty = Inr (0, 0)"
proof -
  have general: "parse_elos h =
     Inr (case (py_int (dict_get h ''WhiteElo'' ''0''), py_int (dict_get h ''BlackElo'' ''0'')) of
            (Inr we, Inr be) \<Rightarrow> (we, be)
          | _ \<Rightarrow> (0, 0))"
  proof (cases "py_int (dict_get h ''WhiteElo'' ''0'')")
    case (Inl e)
    with py_int_raises_only_ValueError [OF Inl] show ?thesis
      by (simp add: parse_elos_def Let_def)
  next
    case we: (Inr we)
    show ?thesis
    proof (cases "py_int (dict_get h ''BlackElo'' ''0'')")
      case (Inl e)
      with we py_int_raises_only_ValueError [OF Inl] show ?thesis
        by (simp add: parse_elos_def Let_def)
    next
      case (Inr be)
      with we show ?thesis
        by (simp add: parse_elos_def Let_def)
    qed
  qed
  have mixed: "parse_elos [''WhiteElo'' \<mapsto> ''?'', ''BlackElo'' \<mapsto> ''1500''] = Inr (0, 0)"
    by (simp add: parse_elos_def dict_get_def py_int_def py_strip_def py_isspace_def
        is_digit_def digits_value_def Let_def)
  have both: "parse_elos [''WhiteElo'' \<mapsto> ''1480'', ''BlackElo'' \<mapsto> ''1500'']
      = Inr (1480, 1500)"
    by (simp add: parse_elos_def dict_get_def py_int_def py_strip_def py_isspace_def
        is_digit_def digits_value_def Let_def)
  have none: "parse_elos Map.empty = Inr (0, 0)"
    by (simp add: parse_elos_def dict_get_def py_int_def py_strip_def py_isspace_def
        is_digit_def digits_value_def Let_def)
  from general mixed both none show ?thesis
    by (intro conjI)
qed

text \<open>The claim as written fails: with \<open>?\<close> for White, Black's rating 1500, which
  converts on its own, comes out as 0.\<close>

theorem unparsable_white_resets_black:
  "py_int ''1500'' = Inr 1500
   \<and> py_int ''?'' = Inl ValueError
   \<and> parse_elos [''WhiteElo'' \<mapsto> ''?'', ''BlackElo'' \<mapsto> ''1500''] = Inr (0, 0)
   \<and> black_elo (snd (analyse_game
        (scripted_world
           (Inr (Some (game_of [''WhiteElo'' \<mapsto> ''?'', ''BlackElo'' \<mapsto> ''1500''] []))) [])
        ''g.pgn'')) = 0
   \<and> fst (analyse_game
        (scripted_world
           (Inr (Some (game_of [''WhiteElo'' \<mapsto> ''?'', ''BlackElo'' \<mapsto> ''1500''] []))) [])
        ''g.pgn'') = [EngineStarted, EngineQuit]"
  by (simp add: analyse_game_def analyse_game_try_def scripted_world_def scripted_engine_def
      game_of_def parse_elos_def classify_time_control_def dict_get_def py_int_def py_strip_def
      py_isspace_def is_digit_def digits_value_def initial_state_def zero_classifications_def
      build_stats_def read_counts_def dict_index_def Let_def)

subsection \<open>Reading the output file back\<close>

lemma universal_newlines_append:
  "a = [] \<or> last a \<noteq> CR \<Longrightarrow>
     universal_newlines (a @ b) = universal_newlines a @ universal_newlines b"
proof (induction a rule: universal_newlines.induct)
  case 1
  then show ?case by simp
next
  case (2 c)
  then show ?case by (cases b) simp_all
next
  case (3 c d ds)
  then show ?case by (cases "ds = []") auto
qed

lemma universal_newlines_ends_lf:
  "ends_lf a \<Longrightarrow> ends_lf (universal_newlines a)"
proof (induction a rule: universal_newlines.induct)
  case 1
  then show ?case by (simp add: ends_lf_def)
next
  case (2 c)
  then show ?case by (simp add: ends_lf_def)
next
  case (3 c d ds)
  then show ?case by (cases "ds = []") (auto simp: ends_lf_def)
qed

lemma universal_newlines_plain:
  "CR \<notin> set n \<Longrightarrow> universal_newlines n = n"
  by (induction n rule: universal_newlines.induct) auto

lemma lines_from_append:
  "ends_lf a \<Longrightarrow> lines_from cur (a @ b) = lines_from cur a @ lines_from [] b"
proof (induction a arbitrary: cur)
  case Nil
  then show ?case by (simp add: ends_lf_def)
next
  case (Cons c cs)
  show ?case
  proof (cases "cs = []")
    case True
    with Cons.prems show ?thesis by (simp add: ends_lf_def)
  next
    case False
    with Cons.prems have "ends_lf cs" by (simp add: ends_lf_def)
    from Cons.IH [OF this] show ?thesis by simp
  qed
qed

lemma lines_from_ends_lf:
  "ends_lf a \<Longrightarrow> lines_from cur a \<noteq> []"
proof (induction a arbitrary: cur)
  case Nil
  then show ?case by (simp add: ends_lf_def)
next
  case (Cons c cs)
  then show ?case by (cases "cs = []") (auto simp: ends_lf_def)
qed

lemma lines_from_first_line:
  "LF \<notin> set n \<Longrightarrow> LF \<in> set zs \<Longrightarrow> \<exists>l ls. lines_from cur (n @ zs) = (cur @ n @ l) # ls"
proof (induction n arbitrary: cur)
  case Nil
  from Nil.prems(2) show ?case
  proof (induction zs arbitrary: cur)
    case Nil
    then show ?case by simp
  next
    case (Cons z zs)
    show ?case
    proof (cases "z = LF")
      case True
      then show ?thesis by simp
    next
      case False
      with Cons.prems have "LF \<in> set zs" by simp
      from Cons.IH [OF this, of "cur @ [z]"] obtain l ls where
        "lines_from (cur @ [z]) zs = ((cur @ [z]) @ l) # ls"
        by auto
      with False have "lines_from cur (z # zs) = (cur @ (z # l)) # ls"
        by simp
      then show ?thesis by auto
    qed
  qed
next
  case (Cons c cs)
  from Cons.prems have "LF \<notin> set cs" and "c \<noteq> LF"
    by auto
  from Cons.IH [OF this(1) Cons.prems(2), of "cur @ [c]"] obtain l ls where
    "lines_from (cur @ [c]) (cs @ zs) = ((cur @ [c]) @ cs @ l) # ls"
    by auto
  with \<open>c \<noteq> LF\<close> show ?case
    by simp
qed

lemma file_lines_append:
  assumes "ends_lf a"
  shows "file_lines (a @ b) = file_lines a @ file_lines b"
proof -
  from assms have "a = [] \<or> last a \<noteq> CR"
    by (simp add: ends_lf_def)
  then have "universal_newlines (a @ b) = universal_newlines a @ universal_newlines b"
    by (rule universal_newlines_append)
  with lines_from_append [OF universal_newlines_ends_lf [OF assms]] show ?thesis
    by (simp add: file_lines_def)
qed

lemma file_lines_ends_lf: "ends_lf a \<Longrightarrow> file_lines a \<noteq> []"
  by (simp add: file_lines_def lines_from_ends_lf universal_newlines_ends_lf)

lemma py_strip_plain: "plain_name n \<Longrightarrow> py_strip n = n"
proof -
  assume plain: "plain_name n"
  then have "n \<noteq> []" and "\<not> py_isspace (hd n)" and "\<not> py_isspace (last n)"
    by (simp_all add: plain_name_def)
  then have "dropWhile py_isspace n = n"
    by (cases n) simp_all
  moreover from \<open>n \<noteq> []\<close> \<open>\<not> py_isspace (last n)\<close> have "dropWhile py_isspace (rev n) = rev n"
    by (cases "rev n") (simp_all add: last_rev [symmetric] hd_rev)
  ultimately show ?thesis
    by (simp add: py_strip_def)
qed

text \<open>A line written as \<open>name\<close>, a tab, and anything ending in a line feed reads back with
  \<open>name\<close> in column 1.\<close>

lemma row_first_column:
  assumes "plain_name n"
  shows "\<exists>l ls. file_lines (n @ TAB # xs @ [LF]) = l # ls \<and> first_column l = n"
proof -
  from assms have no_cr: "CR \<notin> set n" and no_lf: "LF \<notin> set n" and no_tab: "TAB \<notin> set n"
    by (simp_all add: plain_name_def)
  have "n = [] \<or> last n \<noteq> CR"
    using no_cr by (metis last_in_set)
  then have "universal_newlines (n @ TAB # xs @ [LF])
      = universal_newlines n @ universal_newlines (TAB # xs @ [LF])"
    by (rule universal_newlines_append)
  with universal_newlines_plain [OF no_cr]
  have un: "universal_newlines (n @ TAB # xs @ [LF]) = n @ universal_newlines (TAB # xs @ [LF])"
    by simp
  have "ends_lf (TAB # xs @ [LF])"
    by (simp add: ends_lf_def)
  from universal_newlines_ends_lf [OF this]
  have lf: "LF \<in> set (universal_newlines (TAB # xs @ [LF]))"
    by (auto simp: ends_lf_def dest: last_in_set)
  have "universal_newlines (TAB # xs @ [LF]) = TAB # universal_newlines (xs @ [LF])"
    by (cases "xs @ [LF]") simp_all
  with lf have lf': "LF \<in> set (TAB # universal_newlines (xs @ [LF]))"
    by simp
  from lines_from_first_line [OF no_lf lf', of "[]"] obtain l ls where
    "lines_from [] (n @ TAB # universal_newlines (xs @ [LF])) = (n @ l) # ls"
    by auto
  moreover have "lines_from [] (n @ TAB # universal_newlines (xs @ [LF])) \<noteq> [] \<and>
      (\<exists>r. hd (lines_from [] (n @ TAB # universal_newlines (xs @ [LF]))) = n @ TAB # r)"
  proof -
    have "LF \<notin> set (n @ [TAB])"
      using no_lf by simp
    moreover have "LF \<in> set (universal_newlines (xs @ [LF]))"
      using lf' by simp
    ultimately obtain l' ls' where
      "lines_from [] ((n @ [TAB]) @ universal_newlines (xs @ [LF])) = ([] @ (n @ [TAB]) @ l') # ls'"
      using lines_from_first_line by blast
    then show ?thesis
      by simp
  qed
  ultimately obtain r ls where
    first: "lines_from [] (n @ TAB # universal_newlines (xs @ [LF])) = (n @ TAB # r) # ls"
    by (cases "lines_from [] (n @ TAB # universal_newlines (xs @ [LF]))") auto
  have "takeWhile (\<lambda>c. c \<noteq> TAB) (n @ TAB # r) = n"
    using no_tab by (induction n) auto
  with py_strip_plain [OF assms] have "first_column (n @ TAB # r) = n"
    by (simp add: first_column_def)
  with first un \<open>universal_newlines (TAB # xs @ [LF]) = TAB # universal_newlines (xs @ [LF])\<close>
  show ?thesis
    by (simp add: file_lines_def)
qed

subsection \<open>The set of processed files after a run\<close>

lemma first_column_fun:
  "(\<lambda>line. py_strip (takeWhile (\<lambda>c. c \<noteq> TAB) line)) = first_column"
  by (rule ext) (simp add: first_column_def)

lemma load_processed_files_readable:
  "load_processed_files None (Some c)
     = (case file_lines c of [] \<Rightarrow> {} | h # rest \<Rightarrow> names_in rest)"
  by (cases "file_lines c") (simp_all add: load_processed_files_def names_in_def first_column_fun)

text \<open>A read that fails delivers fewer lines, so it finds fewer names.\<close>

lemma load_processed_files_partial:
  "load_processed_files rf output_file \<subseteq> load_processed_files None output_file"
proof (cases output_file)
  case None
  then show ?thesis
    by (simp add: load_processed_files_def)
next
  case content: (Some c)
  show ?thesis
  proof (cases rf)
    case None
    then show ?thesis
      by simp
  next
    case failure: (Some k)
    show ?thesis
    proof (cases "file_lines c")
      case Nil
      with content failure show ?thesis
        by (simp add: load_processed_files_def)
    next
      case (Cons h rest)
      show ?thesis
      proof (cases k)
        case 0
        with content failure Cons show ?thesis
          by (simp add: load_processed_files_def)
      next
        case (Suc j)
        have "set (take j rest) \<subseteq> set rest"
          by (rule set_take_subset)
        with content failure Cons Suc show ?thesis
          by (auto simp: load_processed_files_def)
      qed
    qed
  qed
qed

lemma names_in_append: "names_in (a @ b) = names_in a \<union> names_in b"
  by (simp add: names_in_def)

lemma format_row_shape: "\<exists>xs. format_row fs gs = filename gs @ TAB # xs @ [LF]"
  by (simp add: format_row_def)

lemma header_line_ends_lf: "ends_lf header_line"
  by (simp add: header_line_def ends_lf_def)

lemma append_row:
  assumes "ends_lf c" and "plain_name n"
  shows "ends_lf (c @ n @ TAB # xs @ [LF])
       \<and> insert n (load_processed_files None (Some c))
           \<subseteq> load_processed_files None (Some (c @ n @ TAB # xs @ [LF]))"
proof -
  from file_lines_ends_lf [OF assms(1)] obtain h rest where old: "file_lines c = h # rest"
    by (cases "file_lines c") auto
  from row_first_column [OF assms(2), of xs] obtain l ls where
    new: "file_lines (n @ TAB # xs @ [LF]) = l # ls" and col: "first_column l = n"
    by blast
  from file_lines_append [OF assms(1), of "n @ TAB # xs @ [LF]"] old new
  have "file_lines (c @ n @ TAB # xs @ [LF]) = h # (rest @ l # ls)"
    by simp
  then have "load_processed_files None (Some (c @ n @ TAB # xs @ [LF]))
      = names_in (rest @ l # ls)"
    by (simp add: load_processed_files_readable)
  moreover have "load_processed_files None (Some c) = names_in rest"
    using old by (simp add: load_processed_files_readable)
  moreover from assms(2) have "n \<noteq> []"
    by (simp add: plain_name_def)
  with col have "n \<in> names_in (l # ls)"
    by (simp add: names_in_def)
  ultimately have "insert n (load_processed_files None (Some c))
           \<subseteq> load_processed_files None (Some (c @ n @ TAB # xs @ [LF]))"
    by (auto simp: names_in_append)
  moreover have "ends_lf (c @ n @ TAB # xs @ [LF])"
    by (simp add: ends_lf_def)
  ultimately show ?thesis
    by simp
qed

text \<open>The loop that appends one row per analysed game.\<close>

lemma foldl_rows: "foldl (\<lambda>content f. content @ g f) c fs = c @ concat (map g fs)"
  by (induction fs arbitrary: c) simp_all

lemma written_rows_Cons:
  "written_rows bt (f # fs)
     = format_row (float_str bt) (snd (analyse_game (worlds bt f) f)) @ written_rows bt fs"
  by (simp add: written_rows_def)


lemma rows_appended:
  assumes "ends_lf c" and "\<forall>f \<in> set fs. plain_name f"
  shows "ends_lf (c @ written_rows bt fs)
       \<and> set fs \<union> load_processed_files None (Some c)
           \<subseteq> load_processed_files None (Some (c @ written_rows bt fs))"
  using assms
proof (induction fs arbitrary: c)
  case Nil
  then show ?case by (simp add: written_rows_def)
next
  case (Cons f fs)
  from format_row_shape [of "float_str bt" "snd (analyse_game (worlds bt f) f)"]
    analyse_game_filename [of "worlds bt f" f]
  obtain xs where
    row: "format_row (float_str bt) (snd (analyse_game (worlds bt f) f)) = f @ TAB # xs @ [LF]"
    by auto
  from Cons.prems have plain: "plain_name f" and rest: "\<forall>g \<in> set fs. plain_name g"
    by simp_all
  from append_row [OF Cons.prems(1) plain, of xs]
  have ends: "ends_lf (c @ f @ TAB # xs @ [LF])"
    and grown: "insert f (load_processed_files None (Some c))
           \<subseteq> load_processed_files None (Some (c @ f @ TAB # xs @ [LF]))"
    by simp_all
  have "c @ written_rows bt (f # fs) = (c @ f @ TAB # xs @ [LF]) @ written_rows bt fs"
    by (simp add: written_rows_Cons row)
  with Cons.IH [OF ends rest] grown show ?case
    by auto
qed

subsection \<open>One run of the batch\<close>

text \<open>
  What \<open>analyse_all_games\<close> leaves: nothing changes when no file is pending; a pool that
  cannot be created ends the run after the header was written; otherwise the file is the
  old one, or the header when there was none, followed by one row for each pending file,
  in the order in which the results come back.
\<close>

lemma analyse_all_games_result:
  "analyse_all_games bt np start =
     (if pending_files bt start = [] then (start, None)
      else if (case np of None \<Rightarrow> cpu_count bt - 4 | Some k \<Rightarrow> k) < 1
      then (Some (case start of None \<Rightarrow> header_line | Some c \<Rightarrow> c), Some ValueError)
      else (Some ((case start of None \<Rightarrow> header_line | Some c \<Rightarrow> c)
                  @ written_rows bt (completion_order bt (pending_files bt start))), None))"
  by (auto simp: analyse_all_games_def pending_files_def written_rows_def foldl_rows Let_def)

lemma lines_from_one_line:
  "LF \<notin> set xs \<Longrightarrow> lines_from cur (xs @ [LF]) = [cur @ xs @ [LF]]"
  by (induction xs arbitrary: cur) auto

lemma file_lines_one_line:
  assumes "LF \<notin> set xs" and "CR \<notin> set xs"
  shows "file_lines (xs @ [LF]) = [xs @ [LF]]"
proof -
  from assms(2) have "CR \<notin> set (xs @ [LF])"
    by simp
  from universal_newlines_plain [OF this] lines_from_one_line [OF assms(1), of "[]"]
  show ?thesis
    by (simp add: file_lines_def)
qed

lemma py_str_int_zero: "py_str_int 0 = ''0''"
  by code_simp


subsection \<open>Running the batch twice\<close>

text \<open>
  C1, as the code has it.  Take a directory in which every name reads back from column 1
  as it was written, and an output file that is absent or ends with a line feed.  If a
  run ends without an exception, a second run over the same directory and the file the
  first one left, reading that file without an error, returns it unchanged, every name
  of the directory being among the processed names read from it.  What the first run
  left is the file it found, or the header when it found none, followed by the rows of
  the pending games and nothing else: the header is written only when there was no file.
\<close>

theorem second_run_changes_nothing:
  assumes names: "\<forall>n \<in> set (glob_pgn bt). plain_name n"
    and order: "\<forall>fs. set (completion_order bt fs) = set fs"
    and start: "start = None \<or> (\<exists>c. start = Some (c @ [LF]))"
    and first: "analyse_all_games bt np start = (out, None)"
    and same: "glob_pgn bt2 = glob_pgn bt"
    and readable: "read_failure bt2 = None"
  shows "analyse_all_games bt2 np2 out = (out, None)
       \<and> set (glob_pgn bt) \<subseteq> load_processed_files None out
       \<and> out = (if pending_files bt start = [] then start
                else Some ((case start of None \<Rightarrow> header_line | Some c \<Rightarrow> c)
                           @ written_rows bt (completion_order bt (pending_files bt start))))"
proof -
  define wh where "wh = (case start of None \<Rightarrow> header_line | Some c \<Rightarrow> c)"
  have shape: "out = (if pending_files bt start = [] then start
                else Some (wh @ written_rows bt (completion_order bt (pending_files bt start))))"
    using first unfolding wh_def by (auto simp: analyse_all_games_result split: if_splits)
  have old: "load_processed_files (read_failure bt) start \<subseteq> load_processed_files None (Some wh)"
  proof (cases start)
    case None
    then show ?thesis
      by (simp add: load_processed_files_def)
  next
    case (Some c)
    with load_processed_files_partial [of "read_failure bt" start] show ?thesis
      by (simp add: wh_def)
  qed
  have split: "set (glob_pgn bt)
      \<subseteq> set (pending_files bt start) \<union> load_processed_files (read_failure bt) start"
    by (auto simp: pending_files_def)
  have all: "set (glob_pgn bt) \<subseteq> load_processed_files None out"
  proof (cases "pending_files bt start = []")
    case True
    with shape have "out = start"
      by simp
    moreover from True split
    have "set (glob_pgn bt) \<subseteq> load_processed_files (read_failure bt) start"
      by simp
    ultimately show ?thesis
      using load_processed_files_partial [of "read_failure bt" start] by blast
  next
    case False
    with shape have out: "out = Some (wh @ written_rows bt (completion_order bt (pending_files bt start)))"
      by simp
    have ends: "ends_lf wh"
    proof (cases start)
      case None
      then show ?thesis
        by (simp add: wh_def header_line_ends_lf)
    next
      case (Some c)
      with start show ?thesis
        by (auto simp: wh_def ends_lf_def)
    qed
    have submitted: "set (completion_order bt (pending_files bt start)) = set (pending_files bt start)"
      using order by simp
    have "set (pending_files bt start) \<subseteq> set (glob_pgn bt)"
      by (auto simp: pending_files_def)
    with names submitted
    have plain: "\<forall>f \<in> set (completion_order bt (pending_files bt start)). plain_name f"
      by auto
    from rows_appended [OF ends plain, of bt] out submitted
    have "set (pending_files bt start) \<union> load_processed_files None (Some wh)
        \<subseteq> load_processed_files None out"
      by simp
    with split old show ?thesis
      by blast
  qed
  have "pending_files bt2 out = []"
    using all by (auto simp: pending_files_def readable same filter_empty_conv)
  then have "analyse_all_games bt2 np2 out = (out, None)"
    by (simp add: analyse_all_games_result)
  with all shape show ?thesis
    by (simp add: wh_def)
qed

theorem second_run_changes_nothing_witness:
  "plain_name ''a.pgn''
   \<and> snd (analyse_all_games (one_file_batch ''a.pgn'') None None) = None
   \<and> analyse_all_games (one_file_batch ''a.pgn'') None
         (fst (analyse_all_games (one_file_batch ''a.pgn'') None None))
       = (fst (analyse_all_games (one_file_batch ''a.pgn'') None None), None)
   \<and> ''a.pgn''
       \<in> load_processed_files None (fst (analyse_all_games (one_file_batch ''a.pgn'') None None))"
proof -
  have plain: "\<forall>n \<in> set (glob_pgn (one_file_batch ''a.pgn'')). plain_name n"
    by (simp add: one_file_batch_def plain_name_def py_isspace_def)
  have order: "\<forall>fs. set (completion_order (one_file_batch ''a.pgn'') fs) = set fs"
    by (simp add: one_file_batch_def)
  have readable: "read_failure (one_file_batch ''a.pgn'') = None"
    by (simp add: one_file_batch_def)
  have first: "analyse_all_games (one_file_batch ''a.pgn'') None None
      = (fst (analyse_all_games (one_file_batch ''a.pgn'') None None), None)"
    by (simp add: analyse_all_games_def one_file_batch_def load_processed_files_def Let_def)
  have start: "(None :: string option) = None \<or> (\<exists>c. None = Some (c @ [LF]))"
    by simp
  have same: "glob_pgn (one_file_batch ''a.pgn'') = glob_pgn (one_file_batch ''a.pgn'')"
    by simp
  note again = second_run_changes_nothing
    [where bt = "one_file_batch ''a.pgn''" and ?bt2.0 = "one_file_batch ''a.pgn''"
       and start = None and np = None and ?np2.0 = None
       and out = "fst (analyse_all_games (one_file_batch ''a.pgn'') None None)",
     OF plain order start first same readable]
  from again have "analyse_all_games (one_file_batch ''a.pgn'') None
         (fst (analyse_all_games (one_file_batch ''a.pgn'') None None))
       = (fst (analyse_all_games (one_file_batch ''a.pgn'') None None), None)"
    by (rule conjunct1)
  moreover from again have "set (glob_pgn (one_file_batch ''a.pgn''))
       \<subseteq> load_processed_files None
           (fst (analyse_all_games (one_file_batch ''a.pgn'') None None))"
    by (elim conjE)
  moreover have "glob_pgn (one_file_batch ''a.pgn'') = [''a.pgn'']"
    by (simp add: one_file_batch_def)
  moreover have "snd (analyse_all_games (one_file_batch ''a.pgn'') None None) = None"
    using first by (metis snd_conv)
  moreover have "plain_name ''a.pgn''"
    by (simp add: plain_name_def py_isspace_def)
  ultimately show ?thesis
    by simp
qed

text \<open>
  The claim as written fails in three ways.  A file named \<open>a.pgn\<close> with a space in front:
  the first run writes the header and the file's row; read back, column 1 is stripped to
  \<open>a.pgn\<close>, the file counts as not processed and the second run appends its row again.
  A file \<open>a.pgn\<close> with an existing, empty output file: the first run writes no header,
  the second run skips the only row as if it were the header and appends the row again.
  And an output file that holds the header and the row of \<open>a.pgn\<close> but cannot be read:
  the handler leaves the set of processed names empty and the row is appended again.
\<close>

theorem second_run_appends_again:
  "analyse_all_games (one_file_batch '' a.pgn'') None None
     = (Some (header_line
              @ format_row (float_str (one_file_batch '' a.pgn'')) (placeholder '' a.pgn'')), None)
   \<and> analyse_all_games (one_file_batch '' a.pgn'') None
       (Some (header_line
              @ format_row (float_str (one_file_batch '' a.pgn'')) (placeholder '' a.pgn'')))
     = (Some (header_line
              @ format_row (float_str (one_file_batch '' a.pgn'')) (placeholder '' a.pgn'')
              @ format_row (float_str (one_file_batch '' a.pgn'')) (placeholder '' a.pgn'')), None)
   \<and> analyse_all_games (one_file_batch ''a.pgn'') None (Some [])
     = (Some (format_row (float_str (one_file_batch ''a.pgn'')) (placeholder ''a.pgn'')), None)
   \<and> analyse_all_games (one_file_batch ''a.pgn'') None
       (Some (format_row (float_str (one_file_batch ''a.pgn'')) (placeholder ''a.pgn'')))
     = (Some (format_row (float_str (one_file_batch ''a.pgn'')) (placeholder ''a.pgn'')
              @ format_row (float_str (one_file_batch ''a.pgn'')) (placeholder ''a.pgn'')), None)
   \<and> analyse_all_games ((one_file_batch ''a.pgn'')\<lparr>read_failure := Some 0\<rparr>) None
       (Some (header_line
              @ format_row (float_str (one_file_batch ''a.pgn'')) (placeholder ''a.pgn'')))
     = (Some (header_line
              @ format_row (float_str (one_file_batch ''a.pgn'')) (placeholder ''a.pgn'')
              @ format_row (float_str (one_file_batch ''a.pgn'')) (placeholder ''a.pgn'')), None)
   \<and> format_row (float_str (one_file_batch '' a.pgn'')) (placeholder '' a.pgn'') \<noteq> []
   \<and> format_row (float_str (one_file_batch ''a.pgn'')) (placeholder ''a.pgn'') \<noteq> []"
proof -
  have game: "snd (analyse_game (scripted_world (Inr None) []) n) = placeholder n" for n
    by (simp add: analyse_game_def analyse_game_try_def scripted_world_def)
  have batch: "glob_pgn (one_file_batch n) = [n]" "read_failure (one_file_batch n) = None"
    "completion_order (one_file_batch n) fs = fs" "cpu_count (one_file_batch n) = 8"
    "worlds (one_file_batch n) f = scripted_world (Inr None) []" for n fs f
    by (simp_all add: one_file_batch_def)
  have rows: "written_rows (one_file_batch n) [n]
      = format_row (float_str (one_file_batch n)) (placeholder n)"
    "written_rows ((one_file_batch n)\<lparr>read_failure := Some 0\<rparr>) [n]
      = format_row (float_str (one_file_batch n)) (placeholder n)" for n
    by (simp_all add: written_rows_def batch game)
  have spaced_row: "format_row (float_str (one_file_batch '' a.pgn'')) (placeholder '' a.pgn'')
      = '' a.pgn'' @ TAB # (TAB # TAB # ''0'' @ TAB # ''0'' @ TAB # ''unknown'' @ TAB # ''unknown''
          @ TAB # ''0'' @ TAB # ''0'' @ TAB # ''0'' @ TAB # ''0'' @ TAB # ''0'' @ TAB # ''0''
          @ TAB # ''0'' @ TAB # ''0'' @ TAB # ''0'' @ TAB # ''0'' @ TAB # ''0'' @ TAB # ''0''
          @ TAB # ''0'' @ TAB # ''0'' @ TAB # ''0'' @ TAB # ''0'' @ TAB # ''0'') @ [LF]"
    by (simp add: format_row_def placeholder_def py_str_int_zero)
  have plain_row: "format_row (float_str (one_file_batch ''a.pgn'')) (placeholder ''a.pgn'')
      = ''a.pgn'' @ TAB # (TAB # TAB # ''0'' @ TAB # ''0'' @ TAB # ''unknown'' @ TAB # ''unknown''
          @ TAB # ''0'' @ TAB # ''0'' @ TAB # ''0'' @ TAB # ''0'' @ TAB # ''0'' @ TAB # ''0''
          @ TAB # ''0'' @ TAB # ''0'' @ TAB # ''0'' @ TAB # ''0'' @ TAB # ''0'' @ TAB # ''0''
          @ TAB # ''0'' @ TAB # ''0'' @ TAB # ''0'' @ TAB # ''0'' @ TAB # ''0'') @ [LF]"
    by (simp add: format_row_def placeholder_def py_str_int_zero)
  have spaced_lines:
    "file_lines (format_row (float_str (one_file_batch '' a.pgn'')) (placeholder '' a.pgn''))
       = [format_row (float_str (one_file_batch '' a.pgn'')) (placeholder '' a.pgn'')]"
    unfolding spaced_row by (simp add: file_lines_def)
  have plain_lines:
    "file_lines (format_row (float_str (one_file_batch ''a.pgn'')) (placeholder ''a.pgn''))
       = [format_row (float_str (one_file_batch ''a.pgn'')) (placeholder ''a.pgn'')]"
    unfolding plain_row by (simp add: file_lines_def)
  have header_lines: "file_lines header_line = [header_line]"
    unfolding header_line_def
    by (rule file_lines_one_line) (simp_all add: column_names_def)
  have spaced_column:
    "first_column (format_row (float_str (one_file_batch '' a.pgn'')) (placeholder '' a.pgn''))
       = ''a.pgn''"
    unfolding spaced_row by (simp add: first_column_def py_strip_def py_isspace_def)
  have read_spaced: "load_processed_files None (Some (header_line
        @ format_row (float_str (one_file_batch '' a.pgn'')) (placeholder '' a.pgn'')))
      = {''a.pgn''}"
    by (simp add: load_processed_files_readable file_lines_append [OF header_line_ends_lf]
        header_lines spaced_lines names_in_def spaced_column)
  have read_plain: "load_processed_files None
        (Some (format_row (float_str (one_file_batch ''a.pgn'')) (placeholder ''a.pgn''))) = {}"
    by (simp add: load_processed_files_readable plain_lines names_in_def)
  have pending:
    "pending_files (one_file_batch n) None = [n]"
    "pending_files (one_file_batch n) (Some []) = [n]"
    "pending_files ((one_file_batch n)\<lparr>read_failure := Some 0\<rparr>) (Some c) = [n]" for n c
    by (simp_all add: pending_files_def batch load_processed_files_def file_lines_def)
  have pending_spaced: "pending_files (one_file_batch '' a.pgn'')
      (Some (header_line
             @ format_row (float_str (one_file_batch '' a.pgn'')) (placeholder '' a.pgn'')))
      = ['' a.pgn'']"
    by (simp add: pending_files_def batch read_spaced)
  have pending_plain: "pending_files (one_file_batch ''a.pgn'')
      (Some (format_row (float_str (one_file_batch ''a.pgn'')) (placeholder ''a.pgn'')))
      = [''a.pgn'']"
    by (simp add: pending_files_def batch read_plain)
  have first_spaced: "analyse_all_games (one_file_batch '' a.pgn'') None None
     = (Some (header_line
              @ format_row (float_str (one_file_batch '' a.pgn'')) (placeholder '' a.pgn'')), None)"
    by (simp add: analyse_all_games_result pending batch rows)
  have second_spaced: "analyse_all_games (one_file_batch '' a.pgn'') None
       (Some (header_line
              @ format_row (float_str (one_file_batch '' a.pgn'')) (placeholder '' a.pgn'')))
     = (Some (header_line
              @ format_row (float_str (one_file_batch '' a.pgn'')) (placeholder '' a.pgn'')
              @ format_row (float_str (one_file_batch '' a.pgn'')) (placeholder '' a.pgn'')), None)"
    by (simp add: analyse_all_games_result pending_spaced batch rows)
  have first_plain: "analyse_all_games (one_file_batch ''a.pgn'') None (Some [])
     = (Some (format_row (float_str (one_file_batch ''a.pgn'')) (placeholder ''a.pgn'')), None)"
    by (simp add: analyse_all_games_result pending batch rows)
  have second_plain: "analyse_all_games (one_file_batch ''a.pgn'') None
       (Some (format_row (float_str (one_file_batch ''a.pgn'')) (placeholder ''a.pgn'')))
     = (Some (format_row (float_str (one_file_batch ''a.pgn'')) (placeholder ''a.pgn'')
              @ format_row (float_str (one_file_batch ''a.pgn'')) (placeholder ''a.pgn'')), None)"
    by (simp add: analyse_all_games_result pending_plain batch rows)
  have unreadable: "analyse_all_games ((one_file_batch ''a.pgn'')\<lparr>read_failure := Some 0\<rparr>) None
       (Some (header_line
              @ format_row (float_str (one_file_batch ''a.pgn'')) (placeholder ''a.pgn'')))
     = (Some (header_line
              @ format_row (float_str (one_file_batch ''a.pgn'')) (placeholder ''a.pgn'')
              @ format_row (float_str (one_file_batch ''a.pgn'')) (placeholder ''a.pgn'')), None)"
    by (simp add: analyse_all_games_result pending batch rows)
  have nonempty: "format_row (float_str (one_file_batch '' a.pgn'')) (placeholder '' a.pgn'') \<noteq> []"
    "format_row (float_str (one_file_batch ''a.pgn'')) (placeholder ''a.pgn'') \<noteq> []"
    by (simp_all add: format_row_def)
  from first_spaced second_spaced first_plain second_plain unreadable nonempty show ?thesis
    by (intro conjI)
qed

subsection \<open>A failed game in the batch\<close>




end
